theory Spec2Isabelle
  imports Complex_Main
begin

section \<open>Exceptions\<close>

text \<open>
  The exception classes the code raises, catches or tests for. All of them are
  subclasses of Python's \<open>Exception\<close>; the classes from \<open>PermissionError\<close> to
  \<open>OSError\<close> are \<open>OSError\<close> or subclasses of it. An exception value carries its class,
  the text \<open>str(e)\<close> gives, and the \<open>__cause__\<close> set by \<open>raise ... from\<close>.
\<close>

datatype exc_class =
    PermissionError | FileNotFoundError | NotADirectoryError | IsADirectoryError
  | FileExistsError | OSError
  | RecursionError | RuntimeError | ValueError | WindowsCleanupError

datatype exc = Exc (cls: exc_class) (msg: string) (cause: "exc option")

fun is_OSError :: "exc_class \<Rightarrow> bool" where
  "is_OSError PermissionError = True"
| "is_OSError FileNotFoundError = True"
| "is_OSError NotADirectoryError = True"
| "is_OSError IsADirectoryError = True"
| "is_OSError FileExistsError = True"
| "is_OSError OSError = True"
| "is_OSError _ = False"

section \<open>The filesystem and the host\<close>

text \<open>
  A path is the list of its components below the filesystem root; \<open>os.path.join(p, e)\<close>
  is \<open>p @ [e]\<close>. The filesystem is a tree of regular files, directories and dangling
  symbolic links: \<open>Link\<close> is a link whose target does not exist, so that whatever
  follows the link (\<open>exists\<close>, \<open>isdir\<close>, \<open>chmod\<close>, \<open>listdir\<close>) finds nothing and
  what does not (\<open>islink\<close>, \<open>unlink\<close>, \<open>rmdir\<close>) finds the link. Links to existing
  files or directories are not modelled.
\<close>

type_synonym path = "string list"

datatype node = File | Dir "(string \<times> node) list" | Link

definition path_str :: "path \<Rightarrow> string" where
  "path_str p = concat (map (\<lambda>x. CHR ''/'' # x) p)"

fun lookup :: "node \<Rightarrow> path \<Rightarrow> node option" where
  "lookup n [] = Some n"
| "lookup File (x # p) = None"
| "lookup Link (x # p) = None"
| "lookup (Dir cs) (x # p) = (case map_of cs x of None \<Rightarrow> None | Some c \<Rightarrow> lookup c p)"

fun update_at :: "path \<Rightarrow> ((string \<times> node) list \<Rightarrow> (string \<times> node) list) \<Rightarrow> node \<Rightarrow> node" where
  "update_at p f File = File"
| "update_at p f Link = Link"
| "update_at [] f (Dir cs) = Dir (f cs)"
| "update_at (x # p) f (Dir cs) =
     Dir (map (\<lambda>yc. if fst yc = x then (fst yc, update_at p f (snd yc)) else yc) cs)"

definition remove_entry :: "path \<Rightarrow> node \<Rightarrow> node" where
  "remove_entry p r = (if p = [] then r else update_at (butlast p) (filter (\<lambda>yc. fst yc \<noteq> last p)) r)"

definition add_dir :: "path \<Rightarrow> node \<Rightarrow> node" where
  "add_dir p r = (if p = [] then r else update_at (butlast p) (\<lambda>cs. cs @ [(last p, Dir [])]) r)"

fun is_dir_node :: "node \<Rightarrow> bool" where
  "is_dir_node (Dir cs) = True"
| "is_dir_node File = False"
| "is_dir_node Link = False"

text \<open>
  The primitives of \<open>os\<close> that can raise. Each call of one is an event of the host's
  trace, with the exception it raised, if any; \<open>time.sleep\<close> is an event too.
  \<open>os.remove\<close> and \<open>os.unlink\<close> are one primitive. \<open>Islink\<close> is \<open>os.path.islink\<close>,
  which never raises; it is a primitive because \<open>shutil.rmtree\<close> hands it to its error
  handler.
\<close>

datatype prim = Scandir | Listdir | Chmod | Unlink | Rmdir | Mkdir | Islink

datatype event = Call prim path "exc option" | Sleep rat

text \<open>
  The host: the filesystem, the failures the environment injects (a locked file, a
  denied permission: any function of the number of primitive calls made so far, the
  primitive and the path), the trace, the interpreter's recursion limit (the depth of
  nested calls it still allows where the program calls into this module), whether
  \<open>os.name\<close> is \<open>'nt'\<close>, and the sequence of candidate names \<open>tempfile\<close> draws from,
  below the temporary root.
\<close>

record world =
  fs :: node
  faults :: "nat \<Rightarrow> prim \<Rightarrow> path \<Rightarrow> exc option"
  trace :: "event list"
  recursion_limit :: nat
  os_name_nt :: bool
  tmp_root :: path
  tmp_names :: "string list"

definition os_error :: "exc_class \<Rightarrow> string \<Rightarrow> path \<Rightarrow> exc" where
  "os_error c text p = Exc c (text @ '': '' @ [CHR 0x27] @ path_str p @ [CHR 0x27]) None"

text \<open>
  What a primitive does to the filesystem when the environment does not interfere.
  \<open>chmod(path, stat.S_IWRITE)\<close> is the one of a Windows host, where it clears the
  read-only attribute and changes nothing else.
\<close>

definition physical :: "prim \<Rightarrow> path \<Rightarrow> node \<Rightarrow> exc + node" where
  "physical pr p r =
     (case lookup r p of
        None \<Rightarrow>
          (case pr of
             Mkdir \<Rightarrow>
               (case lookup r (butlast p) of
                  Some (Dir cs) \<Rightarrow> Inr (add_dir p r)
                | Some File \<Rightarrow> Inl (os_error NotADirectoryError ''[Errno 20] Not a directory'' p)
                | Some Link \<Rightarrow> Inl (os_error FileNotFoundError ''[Errno 2] No such file or directory'' p)
                | None \<Rightarrow> Inl (os_error FileNotFoundError ''[Errno 2] No such file or directory'' p))
           | Islink \<Rightarrow> Inr r
           | _ \<Rightarrow> Inl (os_error FileNotFoundError ''[Errno 2] No such file or directory'' p))
      | Some File \<Rightarrow>
          (case pr of
             Scandir \<Rightarrow> Inl (os_error NotADirectoryError ''[Errno 20] Not a directory'' p)
           | Listdir \<Rightarrow> Inl (os_error NotADirectoryError ''[Errno 20] Not a directory'' p)
           | Chmod \<Rightarrow> Inr r
           | Unlink \<Rightarrow> Inr (remove_entry p r)
           | Rmdir \<Rightarrow> Inl (os_error NotADirectoryError ''[Errno 20] Not a directory'' p)
           | Mkdir \<Rightarrow> Inl (os_error FileExistsError ''[Errno 17] File exists'' p)
           | Islink \<Rightarrow> Inr r)
      | Some (Dir cs) \<Rightarrow>
          (case pr of
             Scandir \<Rightarrow> Inr r
           | Listdir \<Rightarrow> Inr r
           | Chmod \<Rightarrow> Inr r
           | Unlink \<Rightarrow> Inl (os_error IsADirectoryError ''[Errno 21] Is a directory'' p)
           | Rmdir \<Rightarrow>
               (if p = [] then Inl (os_error OSError ''[Errno 16] Device or resource busy'' p)
                else if cs \<noteq> [] then Inl (os_error OSError ''[Errno 39] Directory not empty'' p)
                else Inr (remove_entry p r))
           | Mkdir \<Rightarrow> Inl (os_error FileExistsError ''[Errno 17] File exists'' p)
           | Islink \<Rightarrow> Inr r)
      | Some Link \<Rightarrow>
          (case pr of
             Scandir \<Rightarrow> Inl (os_error FileNotFoundError ''[Errno 2] No such file or directory'' p)
           | Listdir \<Rightarrow> Inl (os_error FileNotFoundError ''[Errno 2] No such file or directory'' p)
           | Chmod \<Rightarrow> Inl (os_error FileNotFoundError ''[Errno 2] No such file or directory'' p)
           | Unlink \<Rightarrow> Inr (remove_entry p r)
           | Rmdir \<Rightarrow> Inl (os_error NotADirectoryError ''[Errno 20] Not a directory'' p)
           | Mkdir \<Rightarrow> Inl (os_error FileExistsError ''[Errno 17] File exists'' p)
           | Islink \<Rightarrow> Inr r))"

text \<open>The environment injects no failure into \<open>os.path.islink\<close>.\<close>

definition call_prim :: "prim \<Rightarrow> path \<Rightarrow> world \<Rightarrow> (exc + unit) \<times> world" where
  "call_prim pr p w =
     (case (if pr = Islink then None else faults w (length (trace w)) pr p) of
        Some e \<Rightarrow> (Inl e, w\<lparr>trace := trace w @ [Call pr p (Some e)]\<rparr>)
      | None \<Rightarrow>
          (case physical pr p (fs w) of
             Inl e \<Rightarrow> (Inl e, w\<lparr>trace := trace w @ [Call pr p (Some e)]\<rparr>)
           | Inr r \<Rightarrow> (Inr (), w\<lparr>fs := r, trace := trace w @ [Call pr p None]\<rparr>)))"

text \<open>\<open>time.sleep\<close> raises \<open>ValueError\<close> on a negative delay.\<close>

definition time_sleep :: "rat \<Rightarrow> world \<Rightarrow> (exc + unit) \<times> world" where
  "time_sleep d w =
     (if d < 0 then (Inl (Exc ValueError ''sleep length must be non-negative'' None), w)
      else (Inr (), w\<lparr>trace := trace w @ [Sleep d]\<rparr>))"

text \<open>
  \<open>os.path.exists\<close>, \<open>isfile\<close>, \<open>isdir\<close> and \<open>islink\<close> never raise and leave no
  trace. The first three follow a link, so a dangling link does not exist for them.
\<close>

definition path_exists :: "path \<Rightarrow> world \<Rightarrow> bool" where
  "path_exists p w = (case lookup (fs w) p of None \<Rightarrow> False | Some Link \<Rightarrow> False | Some n \<Rightarrow> True)"

definition islink :: "path \<Rightarrow> world \<Rightarrow> bool" where
  "islink p w = (lookup (fs w) p = Some Link)"

definition isfile :: "path \<Rightarrow> world \<Rightarrow> bool" where
  "isfile p w = (lookup (fs w) p = Some File)"

definition isdir :: "path \<Rightarrow> world \<Rightarrow> bool" where
  "isdir p w = (case lookup (fs w) p of Some (Dir cs) \<Rightarrow> True | _ \<Rightarrow> False)"

definition entries_of :: "path \<Rightarrow> world \<Rightarrow> (string \<times> node) list" where
  "entries_of p w = (case lookup (fs w) p of Some (Dir cs) \<Rightarrow> cs | _ \<Rightarrow> [])"

definition os_listdir :: "path \<Rightarrow> world \<Rightarrow> (exc + string list) \<times> world" where
  "os_listdir p w =
     (case call_prim Listdir p w of
        (Inl e, w') \<Rightarrow> (Inl e, w')
      | (Inr u, w') \<Rightarrow> (Inr (map fst (entries_of p w')), w'))"

text \<open>\<open>os.scandir\<close>: each entry with its cached \<open>is_dir()\<close>, which is false of a dangling link.\<close>

definition os_scandir :: "path \<Rightarrow> world \<Rightarrow> (exc + (string \<times> bool) list) \<times> world" where
  "os_scandir p w =
     (case call_prim Scandir p w of
        (Inl e, w') \<Rightarrow> (Inl e, w')
      | (Inr u, w') \<Rightarrow> (Inr (map (\<lambda>yc. (fst yc, is_dir_node (snd yc))) (entries_of p w')), w'))"

section \<open>The standard library: \<open>shutil.rmtree\<close>, \<open>tempfile.mkdtemp\<close>\<close>

text \<open>
  \<open>shutil.rmtree(path, onerror=h)\<close>, after the library's documentation and its
  implementation without directory descriptors: list the directory, remove each entry
  (a directory by a recursive call, anything else by \<open>os.unlink\<close>), then remove the
  directory itself. An \<open>OSError\<close> of a primitive goes to the handler \<open>h\<close> with the
  primitive and the path; when \<open>h\<close> returns, the walk goes on, and what \<open>h\<close> raises
  leaves \<open>rmtree\<close>. The handler is a closure: \<open>'s\<close> is the state it captures. The
  recursion is as deep as the tree, so it ends in \<open>RecursionError\<close> at the interpreter's
  recursion limit. Called on a symbolic link, \<open>rmtree\<close> hands the handler an \<open>OSError\<close>
  with \<open>os.path.islink\<close> and does nothing more.
\<close>

type_synonym 's handler = "prim \<Rightarrow> path \<Rightarrow> exc \<Rightarrow> 's \<times> world \<Rightarrow> (exc + unit) \<times> 's \<times> world"

definition guarded :: "'s handler \<Rightarrow> prim \<Rightarrow> path \<Rightarrow> 's \<times> world \<Rightarrow> (exc + unit) \<times> 's \<times> world" where
  "guarded h pr p sw =
     (case call_prim pr p (snd sw) of
        (Inr u, w1) \<Rightarrow> (Inr (), fst sw, w1)
      | (Inl e, w1) \<Rightarrow> (if is_OSError (cls e) then h pr p e (fst sw, w1) else (Inl e, fst sw, w1)))"

fun rmtree_unsafe :: "'s handler \<Rightarrow> nat \<Rightarrow> path \<Rightarrow> 's \<times> world \<Rightarrow> (exc + unit) \<times> 's \<times> world"
  and rmtree_entries :: "'s handler \<Rightarrow> nat \<Rightarrow> path \<Rightarrow> (string \<times> bool) list \<Rightarrow> 's \<times> world
                           \<Rightarrow> (exc + unit) \<times> 's \<times> world" where
  "rmtree_unsafe h 0 p sw = (Inl (Exc RecursionError ''maximum recursion depth exceeded'' None), sw)"
| "rmtree_unsafe h (Suc n) p sw =
     (case os_scandir p (snd sw) of
        (Inl e, w1) \<Rightarrow>
          (if is_OSError (cls e)
           then (case h Scandir p e (fst sw, w1) of
                   (Inl e', sw2) \<Rightarrow> (Inl e', sw2)
                 | (Inr u, sw2) \<Rightarrow> guarded h Rmdir p sw2)
           else (Inl e, fst sw, w1))
      | (Inr entries, w1) \<Rightarrow>
          (case rmtree_entries h n p entries (fst sw, w1) of
             (Inl e', sw2) \<Rightarrow> (Inl e', sw2)
           | (Inr u, sw2) \<Rightarrow> guarded h Rmdir p sw2))"
| "rmtree_entries h n p [] sw = (Inr (), sw)"
| "rmtree_entries h n p (entry # entries) sw =
     (case (if snd entry then rmtree_unsafe h n (p @ [fst entry]) sw
            else guarded h Unlink (p @ [fst entry]) sw) of
        (Inl e', sw2) \<Rightarrow> (Inl e', sw2)
      | (Inr u, sw2) \<Rightarrow> rmtree_entries h n p entries sw2)"

definition shutil_rmtree :: "'s handler \<Rightarrow> path \<Rightarrow> 's \<times> world \<Rightarrow> (exc + unit) \<times> 's \<times> world" where
  "shutil_rmtree h p sw =
     (if islink p (snd sw)
      then h Islink p (Exc OSError ''Cannot call rmtree on a symbolic link'' None) sw
      else rmtree_unsafe h (recursion_limit (snd sw)) p sw)"

text \<open>Without \<open>onerror\<close>, the first error is raised.\<close>

definition raise_handler :: "unit handler" where
  "raise_handler pr p e sw = (Inl e, sw)"

text \<open>
  \<open>tempfile.mkdtemp(prefix=...)\<close>: the next candidate name whose \<open>mkdir\<close> does not
  find the name taken, among \<open>TMP_MAX\<close> candidates; any other error is raised. Where
  \<open>os.name\<close> is \<open>'nt'\<close> a \<open>PermissionError\<close> also counts as a taken name when the
  parent is a directory (\<open>os.access(dir, os.W_OK)\<close>, which the library asks too, is taken
  to hold of every directory).
\<close>

definition TMP_MAX :: nat where
  "TMP_MAX = 10000"

fun mkdtemp_loop :: "string \<Rightarrow> string list \<Rightarrow> world \<Rightarrow> (exc + path) \<times> world" where
  "mkdtemp_loop prefix [] w =
     (Inl (Exc FileExistsError ''[Errno 17] No usable temporary directory name found'' None), w)"
| "mkdtemp_loop prefix (name # names) w =
     (case call_prim Mkdir (tmp_root w @ [prefix @ name]) (w\<lparr>tmp_names := tl (tmp_names w)\<rparr>) of
        (Inr u, w1) \<Rightarrow> (Inr (tmp_root w @ [prefix @ name]), w1)
      | (Inl e, w1) \<Rightarrow>
          (if cls e = FileExistsError then mkdtemp_loop prefix names w1
           else if cls e = PermissionError \<and> os_name_nt w \<and> isdir (tmp_root w) w1
           then mkdtemp_loop prefix names w1
           else (Inl e, w1)))"

definition mkdtemp :: "string \<Rightarrow> world \<Rightarrow> (exc + path) \<times> world" where
  "mkdtemp prefix w = mkdtemp_loop prefix (take TMP_MAX (tmp_names w)) w"

section \<open>\<open>windows_cleanup.py\<close>: \<open>WindowsFileSystemCleaner\<close>\<close>

text \<open>
  The cleaner's three parameters are set by \<open>__init__\<close> and never assigned again;
  \<open>_cleanup_stats\<close> is the part of the object the methods update. Python's leading
  underscore of a method name is dropped. Logging is not modelled.
\<close>

record config =
  max_retries :: int
  retry_delay :: rat
  max_depth :: int

record stats =
  files_removed :: int
  dirs_removed :: int
  retries_used :: int
  errors_encountered :: int

definition default_config :: config where
  "default_config = \<lparr>max_retries = 3, retry_delay = 1 / 10, max_depth = 100\<rparr>"

definition zero_stats :: stats where
  "zero_stats = \<lparr>files_removed = 0, dirs_removed = 0, retries_used = 0, errors_encountered = 0\<rparr>"

subsection \<open>Strategy 1: \<open>_rmtree_with_retries\<close>\<close>

function retry_loop :: "config \<Rightarrow> prim \<Rightarrow> path \<Rightarrow> int \<Rightarrow> stats \<times> world \<Rightarrow> (exc + unit) \<times> stats \<times> world" where
  "retry_loop cfg func p attempt sw =
     (if attempt < max_retries cfg then
        (case (case time_sleep (retry_delay cfg) (snd sw) of
                 (Inl e, w1) \<Rightarrow> (Inl e, w1)
               | (Inr u, w1) \<Rightarrow>
                   call_prim func p (if path_exists p w1 then snd (call_prim Chmod p w1) else w1)) of
           (Inr u, w2) \<Rightarrow> (Inr (), (fst sw)\<lparr>retries_used := retries_used (fst sw) + 1\<rparr>, w2)
         | (Inl retry_error, w2) \<Rightarrow>
             (if attempt = max_retries cfg - 1 then (Inl retry_error, fst sw, w2)
              else retry_loop cfg func p (attempt + 1) (fst sw, w2)))
      else (Inr (), sw))"
  by pat_completeness auto
termination
  by (relation "measure (\<lambda>(cfg, func, p, attempt, sw). nat (max_retries cfg - attempt))") auto

declare retry_loop.simps [simp del]

definition retry_on_error :: "config \<Rightarrow> stats handler" where
  "retry_on_error cfg func p exception sw =
     (if is_OSError (cls exception) then retry_loop cfg func p 0 sw
      else (Inl exception, sw))"

definition rmtree_with_retries :: "config \<Rightarrow> path \<Rightarrow> stats \<times> world \<Rightarrow> (exc + unit) \<times> stats \<times> world" where
  "rmtree_with_retries cfg p sw = shutil_rmtree (retry_on_error cfg) p sw"

subsection \<open>Strategy 2: \<open>_force_rmtree\<close>\<close>

definition force_remove_readonly :: "stats handler" where
  "force_remove_readonly func p e sw =
     (case call_prim Chmod p (snd sw) of
        (Inl e1, w1) \<Rightarrow> (Inl e1, fst sw, w1)
      | (Inr u, w1) \<Rightarrow>
          (case call_prim func p w1 of
             (Inl e2, w2) \<Rightarrow> (Inl e2, fst sw, w2)
           | (Inr u, w2) \<Rightarrow> (Inr (), fst sw, w2)))"

text \<open>
  The two inner loops of the first pass, over the files and the directories of one
  yielded directory (the loop's \<open>root\<close>).
\<close>

fun chmod_files :: "path \<Rightarrow> string list \<Rightarrow> stats \<times> world \<Rightarrow> stats \<times> world" where
  "chmod_files top_path [] sw = sw"
| "chmod_files top_path (file # files) sw =
     (case call_prim Chmod (top_path @ [file]) (snd sw) of
        (Inr u, w1) \<Rightarrow> chmod_files top_path files ((fst sw)\<lparr>files_removed := files_removed (fst sw) + 1\<rparr>, w1)
      | (Inl e, w1) \<Rightarrow> chmod_files top_path files (fst sw, w1))"

fun chmod_dirs :: "path \<Rightarrow> string list \<Rightarrow> stats \<times> world \<Rightarrow> stats \<times> world" where
  "chmod_dirs top_path [] sw = sw"
| "chmod_dirs top_path (dir # dirs) sw =
     (case call_prim Chmod (top_path @ [dir]) (snd sw) of
        (Inr u, w1) \<Rightarrow> chmod_dirs top_path dirs ((fst sw)\<lparr>dirs_removed := dirs_removed (fst sw) + 1\<rparr>, w1)
      | (Inl e, w1) \<Rightarrow> chmod_dirs top_path dirs (fst sw, w1))"

text \<open>
  The first pass, \<open>for root, dirs, files in os.walk(path, topdown=False)\<close>: the walk
  lists \<open>top_path\<close>, walks each subdirectory, then yields \<open>top_path\<close> to the loop body. A
  listing that fails with an \<open>OSError\<close> yields nothing for that directory. The walk is
  recursive and ends in \<open>RecursionError\<close> like \<open>rmtree\<close>.
\<close>

fun walk_chmod :: "nat \<Rightarrow> path \<Rightarrow> stats \<times> world \<Rightarrow> (exc + unit) \<times> stats \<times> world"
  and walk_subdirs :: "nat \<Rightarrow> path \<Rightarrow> string list \<Rightarrow> stats \<times> world \<Rightarrow> (exc + unit) \<times> stats \<times> world" where
  "walk_chmod 0 top_path sw = (Inl (Exc RecursionError ''maximum recursion depth exceeded'' None), sw)"
| "walk_chmod (Suc n) top_path sw =
     (case os_scandir top_path (snd sw) of
        (Inl e, w1) \<Rightarrow> (if is_OSError (cls e) then (Inr (), fst sw, w1) else (Inl e, fst sw, w1))
      | (Inr entries, w1) \<Rightarrow>
          (case walk_subdirs n top_path (map fst (filter snd entries)) (fst sw, w1) of
             (Inl e, sw2) \<Rightarrow> (Inl e, sw2)
           | (Inr u, sw2) \<Rightarrow>
               (Inr (), chmod_dirs top_path (map fst (filter snd entries))
                          (chmod_files top_path (map fst (filter (\<lambda>en. \<not> snd en) entries)) sw2))))"
| "walk_subdirs n top_path [] sw = (Inr (), sw)"
| "walk_subdirs n top_path (dir # dirs) sw =
     (case walk_chmod n (top_path @ [dir]) sw of
        (Inl e, sw1) \<Rightarrow> (Inl e, sw1)
      | (Inr u, sw1) \<Rightarrow> walk_subdirs n top_path dirs sw1)"

definition force_rmtree :: "path \<Rightarrow> stats \<times> world \<Rightarrow> (exc + unit) \<times> stats \<times> world" where
  "force_rmtree p sw =
     (case walk_chmod (recursion_limit (snd sw)) p sw of
        (Inl e, sw1) \<Rightarrow> (Inl e, sw1)
      | (Inr u, sw1) \<Rightarrow> shutil_rmtree force_remove_readonly p sw1)"

subsection \<open>Strategy 3: \<open>_manual_rmtree\<close>\<close>

function safe_remove_file_loop :: "config \<Rightarrow> path \<Rightarrow> int \<Rightarrow> world \<Rightarrow> (exc + unit) \<times> world" where
  "safe_remove_file_loop cfg file_path attempt w =
     (if attempt < max_retries cfg then
        (case (case call_prim Chmod file_path w of
                 (Inl e, w1) \<Rightarrow> (Inl e, w1)
               | (Inr u, w1) \<Rightarrow> call_prim Unlink file_path w1) of
           (Inr u, w2) \<Rightarrow> (Inr (), w2)
         | (Inl e, w2) \<Rightarrow>
             (if cls e = PermissionError \<or> cls e = FileNotFoundError then
                (if attempt = max_retries cfg - 1 then (Inl e, w2)
                 else (case time_sleep (retry_delay cfg) w2 of
                         (Inl e', w3) \<Rightarrow> (Inl e', w3)
                       | (Inr u, w3) \<Rightarrow> safe_remove_file_loop cfg file_path (attempt + 1) w3))
              else (Inl e, w2)))
      else (Inr (), w))"
  by pat_completeness auto
termination
  by (relation "measure (\<lambda>(cfg, file_path, attempt, w). nat (max_retries cfg - attempt))") auto

declare safe_remove_file_loop.simps [simp del]

definition safe_remove_file :: "config \<Rightarrow> path \<Rightarrow> world \<Rightarrow> (exc + unit) \<times> world" where
  "safe_remove_file cfg file_path w = safe_remove_file_loop cfg file_path 0 w"

function safe_remove_dir_loop :: "config \<Rightarrow> path \<Rightarrow> int \<Rightarrow> world \<Rightarrow> (exc + unit) \<times> world" where
  "safe_remove_dir_loop cfg dir_path attempt w =
     (if attempt < max_retries cfg then
        (case call_prim Rmdir dir_path w of
           (Inr u, w2) \<Rightarrow> (Inr (), w2)
         | (Inl e, w2) \<Rightarrow>
             (if is_OSError (cls e) then
                (if attempt = max_retries cfg - 1 then (Inl e, w2)
                 else (case time_sleep (retry_delay cfg) w2 of
                         (Inl e', w3) \<Rightarrow> (Inl e', w3)
                       | (Inr u, w3) \<Rightarrow> safe_remove_dir_loop cfg dir_path (attempt + 1) w3))
              else (Inl e, w2)))
      else (Inr (), w))"
  by pat_completeness auto
termination
  by (relation "measure (\<lambda>(cfg, dir_path, attempt, w). nat (max_retries cfg - attempt))") auto

declare safe_remove_dir_loop.simps [simp del]

definition safe_remove_dir :: "config \<Rightarrow> path \<Rightarrow> world \<Rightarrow> (exc + unit) \<times> world" where
  "safe_remove_dir cfg dir_path w = safe_remove_dir_loop cfg dir_path 0 w"

text \<open>
  \<open>_manual_rmtree\<close> and its loop over the entries. The interpreter's recursion limit is
  counted in nested calls of \<open>_manual_rmtree\<close>, which \<open>current_depth\<close> numbers from the
  outermost call: a recursive call that would be nested as deep as the limit raises
  \<open>RecursionError\<close> where it is made.
\<close>

definition depth_limit_error :: "path \<Rightarrow> exc" where
  "depth_limit_error p = Exc WindowsCleanupError (''Recursion depth limit exceeded: '' @ path_str p) None"

function manual_rmtree :: "config \<Rightarrow> path \<Rightarrow> int \<Rightarrow> stats \<times> world \<Rightarrow> (exc + unit) \<times> stats \<times> world"
  and manual_entries :: "config \<Rightarrow> path \<Rightarrow> string list \<Rightarrow> int \<Rightarrow> stats \<times> world
                           \<Rightarrow> (exc + unit) \<times> stats \<times> world" where
  "manual_rmtree cfg p current_depth sw =
     (if current_depth > max_depth cfg then (Inl (depth_limit_error p), sw)
      else if \<not> path_exists p (snd sw) then (Inr (), sw)
      else if isfile p (snd sw) then
        (case safe_remove_file cfg p (snd sw) of (r, w1) \<Rightarrow> (r, fst sw, w1))
      else
        (case os_listdir p (snd sw) of
           (Inl e, w1) \<Rightarrow>
             (if cls e = PermissionError \<or> cls e = FileNotFoundError then (Inr (), fst sw, w1)
              else (Inl e, fst sw, w1))
         | (Inr entries, w1) \<Rightarrow>
             (case manual_entries cfg p entries current_depth (fst sw, w1) of
                (Inl e, sw2) \<Rightarrow> (Inl e, sw2)
              | (Inr u, sw2) \<Rightarrow>
                  (case safe_remove_dir cfg p (snd sw2) of (r, w3) \<Rightarrow> (r, fst sw2, w3)))))"
| "manual_entries cfg p [] current_depth sw = (Inr (), sw)"
| "manual_entries cfg p (entry # entries) current_depth sw =
     (if isdir (p @ [entry]) (snd sw) then
        (if int (recursion_limit (snd sw)) \<le> current_depth + 1
         then (Inl (Exc RecursionError ''maximum recursion depth exceeded'' None), sw)
         else
           (case manual_rmtree cfg (p @ [entry]) (current_depth + 1) sw of
              (Inl e, sw1) \<Rightarrow> (Inl e, sw1)
            | (Inr u, sw1) \<Rightarrow>
                manual_entries cfg p entries current_depth
                  ((fst sw1)\<lparr>dirs_removed := dirs_removed (fst sw1) + 1\<rparr>, snd sw1)))
      else
        (case safe_remove_file cfg (p @ [entry]) (snd sw) of
           (Inl e, w1) \<Rightarrow> (Inl e, fst sw, w1)
         | (Inr u, w1) \<Rightarrow>
             manual_entries cfg p entries current_depth
               ((fst sw)\<lparr>files_removed := files_removed (fst sw) + 1\<rparr>, w1)))"
  by pat_completeness auto
termination
  by (relation "inv_image (less_than <*lex*> less_than)
        (\<lambda>x. case x of
           Inl (cfg, p, d, sw) \<Rightarrow>
             (if d \<le> max_depth cfg then 2 * nat (max_depth cfg + 1 - d) + 2 else 0, 0)
         | Inr (cfg, p, entries, d, sw) \<Rightarrow>
             (2 * nat (max_depth cfg + 1 - d) + 1, length entries))") auto

declare manual_rmtree.simps [simp del] manual_entries.simps [simp del]

subsection \<open>\<open>safe_rmtree\<close> and the module's functions\<close>

definition all_failed_msg :: "path \<Rightarrow> exc \<Rightarrow> exc \<Rightarrow> exc \<Rightarrow> string" where
  "all_failed_msg p e e2 e3 =
     ''All removal strategies failed for '' @ path_str p @ '': '' @ msg e @ '', '' @ msg e2 @ '', '' @ msg e3"

definition safe_rmtree :: "config \<Rightarrow> path \<Rightarrow> bool \<Rightarrow> stats \<times> world \<Rightarrow> (exc + bool) \<times> stats \<times> world" where
  "safe_rmtree cfg p ignore_errors sw =
     (if \<not> path_exists p (snd sw) then (Inr True, sw)
      else
        (case rmtree_with_retries cfg p sw of
           (Inr u, sw1) \<Rightarrow> (Inr True, sw1)
         | (Inl e, sw1) \<Rightarrow>
             (case force_rmtree p sw1 of
                (Inr u, sw2) \<Rightarrow> (Inr True, sw2)
              | (Inl e2, sw2) \<Rightarrow>
                  (case manual_rmtree cfg p 0 sw2 of
                     (Inr u, sw3) \<Rightarrow> (Inr True, sw3)
                   | (Inl e3, sw3) \<Rightarrow>
                       (if ignore_errors
                        then (Inr False,
                              (fst sw3)\<lparr>errors_encountered := errors_encountered (fst sw3) + 1\<rparr>, snd sw3)
                        else (Inl (Exc WindowsCleanupError (all_failed_msg p e e2 e3) (Some e3)),
                              (fst sw3)\<lparr>errors_encountered := errors_encountered (fst sw3) + 1\<rparr>, snd sw3))))))"

text \<open>\<open>safe_windows_rmtree\<close> makes a cleaner with the default parameters and drops it.\<close>

definition safe_windows_rmtree :: "path \<Rightarrow> bool \<Rightarrow> world \<Rightarrow> (exc + bool) \<times> world" where
  "safe_windows_rmtree p ignore_errors w =
     (case safe_rmtree default_config p ignore_errors (zero_stats, w) of
        (r, sw1) \<Rightarrow> (r, snd sw1))"

text \<open>
  \<open>create_safe_tempdir\<close> of \<open>windows_cleanup.py\<close>; \<open>win\<close> is
  \<open>sys.platform.startswith('win')\<close>.
\<close>

definition windows_create_safe_tempdir :: "bool \<Rightarrow> string \<Rightarrow> world \<Rightarrow> (exc + path) \<times> world" where
  "windows_create_safe_tempdir win prefix w =
     mkdtemp (if win \<and> length prefix > 20 then take 20 prefix else prefix) w"

section \<open>\<open>platform_utils.py\<close>: \<open>PlatformAdapter\<close>\<close>

text \<open>
  The adapter knows whether the host is Windows. \<open>windows_cleanup_importable\<close> says
  whether \<open>from .windows_cleanup import ...\<close> succeeds (the \<open>ImportError\<close> branches).
\<close>

record platform_adapter =
  is_windows :: bool
  sys_platform_win :: bool
  windows_cleanup_importable :: bool

definition standard_rmtree :: "path \<Rightarrow> bool \<Rightarrow> world \<Rightarrow> (exc + bool) \<times> world" where
  "standard_rmtree p ignore_errors w =
     (case shutil_rmtree raise_handler p ((), w) of
        (Inr u, sw1) \<Rightarrow> (Inr True, snd sw1)
      | (Inl e, sw1) \<Rightarrow> (if ignore_errors then (Inr False, snd sw1) else (Inl e, snd sw1)))"

definition adapter_safe_rmtree :: "platform_adapter \<Rightarrow> path \<Rightarrow> bool \<Rightarrow> world \<Rightarrow> (exc + bool) \<times> world" where
  "adapter_safe_rmtree ad p ignore_errors w =
     (if \<not> is_windows ad then standard_rmtree p ignore_errors w
      else if windows_cleanup_importable ad then safe_windows_rmtree p ignore_errors w
      else standard_rmtree p ignore_errors w)"

definition adapter_create_safe_tempdir :: "platform_adapter \<Rightarrow> string \<Rightarrow> world \<Rightarrow> (exc + path) \<times> world" where
  "adapter_create_safe_tempdir ad prefix w =
     (if \<not> is_windows ad then mkdtemp prefix w
      else if windows_cleanup_importable ad then windows_create_safe_tempdir (sys_platform_win ad) prefix w
      else mkdtemp prefix w)"

section \<open>\<open>safe_temp.py\<close>\<close>

text \<open>
  The protected body of a \<open>with\<close> block is any function of the directory's path and
  the host that returns or raises.
\<close>

type_synonym 'a body = "path \<Rightarrow> world \<Rightarrow> (exc + 'a) \<times> world"

subsection \<open>The context manager \<open>safe_temp_directory\<close>\<close>

text \<open>
  The generator under \<open>@contextmanager\<close>, run with its body: what the body raises at
  the \<open>yield\<close> is raised again by the \<open>except\<close> clause, the \<open>finally\<close> clause runs
  on every path, and an exception of the cleanup is caught there.
\<close>

definition safe_temp_directory :: "platform_adapter \<Rightarrow> string \<Rightarrow> bool \<Rightarrow> 'a body \<Rightarrow> world \<Rightarrow> (exc + 'a) \<times> world" where
  "safe_temp_directory ad prefix auto_cleanup body w =
     (case adapter_create_safe_tempdir ad prefix w of
        (Inl e, w1) \<Rightarrow> (Inl e, w1)
      | (Inr temp_dir, w1) \<Rightarrow>
          (case body temp_dir w1 of
             (r, w2) \<Rightarrow>
               (r, if auto_cleanup \<and> temp_dir \<noteq> [] \<and> path_exists temp_dir w2
                   then snd (adapter_safe_rmtree ad temp_dir True w2)
                   else w2)))"

subsection \<open>The class \<open>SafeTemporaryDirectory\<close>\<close>

record SafeTemporaryDirectory =
  prefix :: string
  dir :: "path option"
  ignore_cleanup_errors :: bool
  name :: "path option"
  platform_adapter :: platform_adapter

definition SafeTemporaryDirectory_init ::
  "platform_adapter \<Rightarrow> string option \<Rightarrow> string option \<Rightarrow> path option \<Rightarrow> bool \<Rightarrow> SafeTemporaryDirectory" where
  "SafeTemporaryDirectory_init ad suffix prefix0 dir0 ignore =
     \<lparr>prefix = (case prefix0 of None \<Rightarrow> ''tmp'' | Some x \<Rightarrow> x) @ (case suffix of None \<Rightarrow> [] | Some x \<Rightarrow> x),
      dir = dir0, ignore_cleanup_errors = ignore, name = None, platform_adapter = ad\<rparr>"

definition enter :: "SafeTemporaryDirectory \<Rightarrow> world \<Rightarrow> (exc + path) \<times> SafeTemporaryDirectory \<times> world" where
  "enter self w =
     (if name self \<noteq> None
      then (Inl (Exc RuntimeError ''Temporary directory already created'' None), self, w)
      else (case adapter_create_safe_tempdir (platform_adapter self) (prefix self) w of
              (Inl e, w1) \<Rightarrow> (Inl e, self, w1)
            | (Inr d, w1) \<Rightarrow> (Inr d, self\<lparr>name := Some d\<rparr>, w1)))"

text \<open>
  \<open>cleanup\<close>: the \<open>try\<close> block (which itself raises \<open>OSError\<close> when the removal
  reports failure in strict mode), the \<open>except\<close> clause, and the \<open>finally\<close> clause.
\<close>

definition cleanup_try :: "SafeTemporaryDirectory \<Rightarrow> path \<Rightarrow> world \<Rightarrow> (exc + unit) \<times> world" where
  "cleanup_try self n w =
     (case adapter_safe_rmtree (platform_adapter self) n (ignore_cleanup_errors self) w of
        (Inl e, w1) \<Rightarrow> (Inl e, w1)
      | (Inr success, w1) \<Rightarrow>
          (if success then (Inr (), w1)
           else if \<not> ignore_cleanup_errors self
           then (Inl (Exc OSError (''Failed to clean up temporary directory: '' @ path_str n) None), w1)
           else (Inr (), w1)))"

definition cleanup :: "SafeTemporaryDirectory \<Rightarrow> world \<Rightarrow> (exc + unit) \<times> SafeTemporaryDirectory \<times> world" where
  "cleanup self w =
     (case name self of
        None \<Rightarrow> (Inr (), self, w)
      | Some n \<Rightarrow>
          (case cleanup_try self n w of
             (Inl e, w1) \<Rightarrow>
               (if \<not> ignore_cleanup_errors self then (Inl e, self\<lparr>name := None\<rparr>, w1)
                else (Inr (), self\<lparr>name := None\<rparr>, w1))
           | (Inr u, w1) \<Rightarrow> (Inr (), self\<lparr>name := None\<rparr>, w1)))"

definition exit :: "SafeTemporaryDirectory \<Rightarrow> world \<Rightarrow> (exc + unit) \<times> SafeTemporaryDirectory \<times> world" where
  "exit self w = cleanup self w"

text \<open>\<open>__del__\<close>: what a finalizer raises is not propagated by the interpreter.\<close>

definition del :: "SafeTemporaryDirectory \<Rightarrow> world \<Rightarrow> SafeTemporaryDirectory \<times> world" where
  "del self w = (if name self \<noteq> None then snd (cleanup self w) else (self, w))"

text \<open>
  \<open>with SafeTemporaryDirectory(...) as d: body\<close>. \<open>__exit__\<close> returns \<open>None\<close>, so an
  exception of the body is raised again after it; an exception \<open>__exit__\<close> raises
  itself is the one the caller sees.
\<close>

definition with_SafeTemporaryDirectory ::
  "SafeTemporaryDirectory \<Rightarrow> 'a body \<Rightarrow> world \<Rightarrow> (exc + 'a) \<times> SafeTemporaryDirectory \<times> world" where
  "with_SafeTemporaryDirectory self body w =
     (case enter self w of
        (Inl e, self1, w1) \<Rightarrow> (Inl e, self1, w1)
      | (Inr d, self1, w1) \<Rightarrow>
          (case body d w1 of
             (r, w2) \<Rightarrow>
               (case exit self1 w2 of
                  (Inl e', self2, w3) \<Rightarrow> (Inl e', self2, w3)
                | (Inr u, self2, w3) \<Rightarrow> (r, self2, w3))))"

subsection \<open>The class \<open>SafeTempDir\<close>\<close>

text \<open>Its fields \<open>prefix\<close> and \<open>platform_adapter\<close> are written \<open>sd_prefix\<close>, \<open>sd_adapter\<close>.\<close>

record SafeTempDir =
  sd_prefix :: string
  temp_dir :: "path option"
  sd_adapter :: platform_adapter

definition sd_create :: "SafeTempDir \<Rightarrow> world \<Rightarrow> (exc + path) \<times> SafeTempDir \<times> world" where
  "sd_create self w =
     (if temp_dir self \<noteq> None
      then (Inl (Exc RuntimeError ''Temporary directory already created'' None), self, w)
      else (case adapter_create_safe_tempdir (sd_adapter self) (sd_prefix self) w of
              (Inl e, w1) \<Rightarrow> (Inl e, self, w1)
            | (Inr d, w1) \<Rightarrow> (Inr d, self\<lparr>temp_dir := Some d\<rparr>, w1)))"

definition sd_cleanup :: "SafeTempDir \<Rightarrow> world \<Rightarrow> bool \<times> SafeTempDir \<times> world" where
  "sd_cleanup self w =
     (case temp_dir self of
        None \<Rightarrow> (True, self, w)
      | Some d \<Rightarrow>
          (case adapter_safe_rmtree (sd_adapter self) d True w of
             (Inr success, w1) \<Rightarrow> (success, self\<lparr>temp_dir := None\<rparr>, w1)
           | (Inl e, w1) \<Rightarrow> (False, self, w1)))"

definition sd_del :: "SafeTempDir \<Rightarrow> world \<Rightarrow> SafeTempDir \<times> world" where
  "sd_del self w = (if temp_dir self \<noteq> None then snd (sd_cleanup self w) else (self, w))"

section \<open>Concrete hosts\<close>

text \<open>Hosts, handles and bodies at which the theorems below are evaluated.\<close>

definition posix_adapter :: platform_adapter where
  "posix_adapter = \<lparr>is_windows = False, sys_platform_win = False, windows_cleanup_importable = True\<rparr>"

definition windows_adapter :: platform_adapter where
  "windows_adapter = \<lparr>is_windows = True, sys_platform_win = True, windows_cleanup_importable = True\<rparr>"

definition scratch_dir :: path where
  "scratch_dir = [''tmp'', ''audit_k3x9'']"

text \<open>A scratch directory holding the file \<open>notes.txt\<close>, on a host that injects no failure.\<close>

definition quiet_host :: world where
  "quiet_host =
     \<lparr>fs = Dir [(''tmp'', Dir [(''audit_k3x9'', Dir [(''notes.txt'', File)])])],
      faults = (\<lambda>n pr p. None), trace = [], recursion_limit = 1000, os_name_nt = False,
      tmp_root = [''tmp''], tmp_names = [''k3x9'', ''q0aa'']\<rparr>"

definition locked_error :: exc where
  "locked_error = Exc PermissionError ''[WinError 32] The process cannot access the file'' None"

text \<open>The same host with every \<open>unlink\<close> denied, and with only the second primitive call denied.\<close>

definition locked_host :: world where
  "locked_host = quiet_host\<lparr>faults := (\<lambda>n pr p. if pr = Unlink then Some locked_error else None)\<rparr>"

definition flaky_host :: world where
  "flaky_host = quiet_host\<lparr>faults := (\<lambda>n pr p. if n = 1 then Some locked_error else None)\<rparr>"

text \<open>An empty temporary root on a host that denies every \<open>rmdir\<close>.\<close>

definition busy_host :: world where
  "busy_host =
     \<lparr>fs = Dir [(''tmp'', Dir [])],
      faults = (\<lambda>n pr p. if pr = Rmdir then Some locked_error else None), trace = [],
      recursion_limit = 1000, os_name_nt = False,
      tmp_root = [''tmp''], tmp_names = [''k3x9'', ''q0aa'']\<rparr>"

definition test_exception :: exc where
  "test_exception = Exc ValueError ''Test exception'' None"

definition raising_body :: "unit body" where
  "raising_body d w = (Inl test_exception, w)"

definition strict_handle :: SafeTemporaryDirectory where
  "strict_handle = SafeTemporaryDirectory_init posix_adapter None (Some ''audit_'') None False"

definition default_handle :: SafeTemporaryDirectory where
  "default_handle = SafeTemporaryDirectory_init posix_adapter None (Some ''audit_'') None True"

text \<open>
  An empty temporary root on a host that injects no failure, and the handle and the host
  after \<open>__enter__\<close> there. A body that removes its directory and then raises.
\<close>

definition fresh_host :: world where
  "fresh_host = busy_host\<lparr>faults := (\<lambda>n pr p. None)\<rparr>"

definition entered_handle :: SafeTemporaryDirectory where
  "entered_handle = fst (snd (enter default_handle fresh_host))"

definition entered_host :: world where
  "entered_host = snd (snd (enter default_handle fresh_host))"

definition fresh_SafeTempDir :: SafeTempDir where
  "fresh_SafeTempDir = \<lparr>sd_prefix = ''claude_temp_'', temp_dir = None, sd_adapter = posix_adapter\<rparr>"

definition created_SafeTempDir :: SafeTempDir where
  "created_SafeTempDir = fst (snd (sd_create fresh_SafeTempDir fresh_host))"

definition created_host :: world where
  "created_host = snd (snd (sd_create fresh_SafeTempDir fresh_host))"

definition removing_body :: "unit body" where
  "removing_body d w = (Inl test_exception, snd (call_prim Rmdir d w))"

text \<open>
  The error of a denied access, and the scratch directory of \<open>quiet_host\<close> on a Windows
  host that denies every listing.
\<close>

definition denied_error :: exc where
  "denied_error = Exc PermissionError ''[WinError 5] Access is denied'' None"

definition unlistable_host :: world where
  "unlistable_host =
     quiet_host\<lparr>faults := (\<lambda>n pr p. if pr = Listdir \<or> pr = Scandir then Some denied_error else None),
                os_name_nt := True\<rparr>"

section \<open>Reading the trace\<close>

text \<open>
  What a run added to the trace: \<open>extends w w'\<close> says that the trace of \<open>w'\<close> continues
  that of \<open>w\<close>, and \<open>new_events w w'\<close> is the continuation.
\<close>

definition extends :: "world \<Rightarrow> world \<Rightarrow> bool" where
  "extends w w' = (take (length (trace w)) (trace w') = trace w)"

definition new_events :: "world \<Rightarrow> world \<Rightarrow> event list" where
  "new_events w w' = drop (length (trace w)) (trace w')"

text \<open>No call of the list raised; a call of the primitive \<open>pr\<close> occurs in the list.\<close>

fun calls_ok :: "event list \<Rightarrow> bool" where
  "calls_ok [] = True"
| "calls_ok (Call pr p None # evs) = calls_ok evs"
| "calls_ok (Call pr p (Some e) # evs) = False"
| "calls_ok (Sleep d # evs) = calls_ok evs"

fun uses_prim :: "prim \<Rightarrow> event list \<Rightarrow> bool" where
  "uses_prim pr [] = False"
| "uses_prim pr (Call pr' p r # evs) = (if pr' = pr then True else uses_prim pr evs)"
| "uses_prim pr (Sleep d # evs) = uses_prim pr evs"

text \<open>
  The number of calls of the primitive \<open>pr\<close> on the path \<open>p\<close>, the delays slept, and
  the length of the longest path a primitive was called on.
\<close>

fun count_calls :: "prim \<Rightarrow> path \<Rightarrow> event list \<Rightarrow> nat" where
  "count_calls pr p [] = 0"
| "count_calls pr p (Call pr' q r # evs) =
     (if pr' = pr \<and> q = p then Suc (count_calls pr p evs) else count_calls pr p evs)"
| "count_calls pr p (Sleep d # evs) = count_calls pr p evs"

fun sleeps :: "event list \<Rightarrow> rat list" where
  "sleeps [] = []"
| "sleeps (Call pr q r # evs) = sleeps evs"
| "sleeps (Sleep d # evs) = d # sleeps evs"

fun deepest :: "event list \<Rightarrow> nat" where
  "deepest [] = 0"
| "deepest (Call pr q r # evs) = max (length q) (deepest evs)"
| "deepest (Sleep d # evs) = deepest evs"

text \<open>A cleaner with a small depth limit and a chain of four nested directories.\<close>

definition shallow_config :: config where
  "shallow_config = \<lparr>max_retries = 3, retry_delay = 1 / 10, max_depth = 2\<rparr>"

definition deep_host :: world where
  "deep_host =
     quiet_host\<lparr>fs := Dir [(''tmp'', Dir [(''deep'',
                    Dir [(''a'', Dir [(''a'', Dir [(''a'', Dir [(''a'', Dir [])])])])])])]\<rparr>"

section \<open>Trees and the post-order removal\<close>




text \<open>
  The environment refuses no \<open>listdir\<close>, \<open>chmod\<close>, \<open>remove\<close> or \<open>rmdir\<close>, whenever
  and on whatever path it is called.
\<close>

definition removal_unhindered :: "world \<Rightarrow> bool" where
  "removal_unhindered w =
     (\<forall>n q. faults w n Listdir q = None \<and> faults w n Chmod q = None \<and>
            faults w n Unlink q = None \<and> faults w n Rmdir q = None)"








definition no_retry_config :: config where
  "no_retry_config = \<lparr>max_retries = 0, retry_delay = 1 / 10, max_depth = 100\<rparr>"

section \<open>Teardown never raises when errors are ignored\<close>

lemma safe_rmtree_ignore_never_raises: "\<exists>b. fst (safe_rmtree cfg p True sw) = Inr b"
  by (auto simp: safe_rmtree_def split: prod.splits sum.splits)

lemma standard_rmtree_ignore_never_raises: "\<exists>b. fst (standard_rmtree p True w) = Inr b"
  by (auto simp: standard_rmtree_def split: prod.splits sum.splits)

lemma adapter_safe_rmtree_ignore_never_raises: "\<exists>b. fst (adapter_safe_rmtree ad p True w) = Inr b"
  using safe_rmtree_ignore_never_raises [of default_config p "(zero_stats, w)"]
    standard_rmtree_ignore_never_raises [of p w]
  by (auto simp: adapter_safe_rmtree_def safe_windows_rmtree_def split: prod.splits)

lemma adapter_safe_rmtree_ignore_cases:
  obtains b w1 where "adapter_safe_rmtree ad p True w = (Inr b, w1)"
  using adapter_safe_rmtree_ignore_never_raises [of ad p w]
  by (cases "adapter_safe_rmtree ad p True w") auto

text \<open>
  C1. Teardown of a path that does not exist: the Windows cleaner returns \<open>True\<close> and
  leaves the host as it was, but on a host that is not Windows \<open>PlatformAdapter.safe_rmtree\<close>
  calls \<open>shutil.rmtree\<close>, which raises \<open>FileNotFoundError\<close>: the call returns \<open>False\<close>
  with \<open>ignore_errors\<close> and raises without it.
\<close>

theorem C1_nonexistent_path_on_posix:
  "\<not> path_exists [''tmp'', ''non_existent_dir_12345''] quiet_host \<and>
   fst (adapter_safe_rmtree posix_adapter [''tmp'', ''non_existent_dir_12345''] True quiet_host) = Inr False \<and>
   fst (adapter_safe_rmtree posix_adapter [''tmp'', ''non_existent_dir_12345''] False quiet_host) =
     Inl (Exc FileNotFoundError
            (''[Errno 2] No such file or directory: '' @ [CHR 0x27] @
             ''/tmp/non_existent_dir_12345'' @ [CHR 0x27]) None) \<and>
   fst (adapter_safe_rmtree windows_adapter [''tmp'', ''non_existent_dir_12345''] True quiet_host) = Inr True \<and>
   trace (snd (adapter_safe_rmtree windows_adapter [''tmp'', ''non_existent_dir_12345''] True quiet_host)) = []"
  by code_simp

text \<open>
  The error policy of teardown. With \<open>ignore_errors\<close> teardown never raises, in the
  Windows cleaner and in every branch of the adapter. When the path exists and the
  three strategies raise
  \<open>e\<close>, \<open>e2\<close> and \<open>e3\<close> in turn, the cleaner returns \<open>False\<close> with \<open>ignore_errors\<close>,
  and without it raises one \<open>WindowsCleanupError\<close> whose message holds the three
  causes and whose \<open>__cause__\<close> is the third. Where the adapter uses the native
  delete (on a host that is not Windows, or where the Windows cleaner cannot be
  imported) it returns \<open>False\<close> with \<open>ignore_errors\<close> when the native delete raises;
  otherwise the adapter's result and host are those of a cleaner with the default
  parameters.
\<close>

lemma teardown_error_policy:
  "(\<exists>b. fst (safe_rmtree cfg p True sw) = Inr b) \<and>
   (\<exists>b. fst (adapter_safe_rmtree ad p True w) = Inr b) \<and>
   (path_exists p (snd sw) \<and>
    fst (rmtree_with_retries cfg p sw) = Inl e \<and>
    fst (force_rmtree p (snd (rmtree_with_retries cfg p sw))) = Inl e2 \<and>
    fst (manual_rmtree cfg p 0 (snd (force_rmtree p (snd (rmtree_with_retries cfg p sw))))) = Inl e3
    \<longrightarrow> fst (safe_rmtree cfg p True sw) = Inr False \<and>
        fst (safe_rmtree cfg p False sw) =
          Inl (Exc WindowsCleanupError
                 (''All removal strategies failed for '' @ path_str p @ '': '' @
                  msg e @ '', '' @ msg e2 @ '', '' @ msg e3) (Some e3))) \<and>
   (\<not> (is_windows ad \<and> windows_cleanup_importable ad) \<and>
    fst (shutil_rmtree raise_handler p ((), w)) = Inl e
    \<longrightarrow> fst (adapter_safe_rmtree ad p True w) = Inr False) \<and>
   (is_windows ad \<and> windows_cleanup_importable ad
    \<longrightarrow> fst (adapter_safe_rmtree ad p ignore_errors w) =
          fst (safe_rmtree default_config p ignore_errors (zero_stats, w)) \<and>
        snd (adapter_safe_rmtree ad p ignore_errors w) =
          snd (snd (safe_rmtree default_config p ignore_errors (zero_stats, w))))"
proof -
  have three: "path_exists p (snd sw) \<and>
    fst (rmtree_with_retries cfg p sw) = Inl e \<and>
    fst (force_rmtree p (snd (rmtree_with_retries cfg p sw))) = Inl e2 \<and>
    fst (manual_rmtree cfg p 0 (snd (force_rmtree p (snd (rmtree_with_retries cfg p sw))))) = Inl e3
    \<longrightarrow> fst (safe_rmtree cfg p True sw) = Inr False \<and>
        fst (safe_rmtree cfg p False sw) =
          Inl (Exc WindowsCleanupError
                 (''All removal strategies failed for '' @ path_str p @ '': '' @
                  msg e @ '', '' @ msg e2 @ '', '' @ msg e3) (Some e3))"
    by (auto simp: safe_rmtree_def all_failed_msg_def split: prod.splits sum.splits)
  have native: "\<not> (is_windows ad \<and> windows_cleanup_importable ad) \<and>
    fst (shutil_rmtree raise_handler p ((), w)) = Inl e
    \<longrightarrow> fst (adapter_safe_rmtree ad p True w) = Inr False"
    by (auto simp: adapter_safe_rmtree_def standard_rmtree_def split: prod.splits sum.splits)
  have win: "is_windows ad \<and> windows_cleanup_importable ad
    \<longrightarrow> fst (adapter_safe_rmtree ad p ignore_errors w) =
          fst (safe_rmtree default_config p ignore_errors (zero_stats, w)) \<and>
        snd (adapter_safe_rmtree ad p ignore_errors w) =
          snd (snd (safe_rmtree default_config p ignore_errors (zero_stats, w)))"
    by (simp add: adapter_safe_rmtree_def safe_windows_rmtree_def split: prod.splits)
  show ?thesis
    using three native win safe_rmtree_ignore_never_raises adapter_safe_rmtree_ignore_never_raises
    by blast
qed

lemma teardown_error_policy_on_locked_host:
  "fst (safe_rmtree default_config scratch_dir True (zero_stats, locked_host)) = Inr False \<and>
   fst (safe_rmtree default_config scratch_dir False (zero_stats, locked_host)) =
     Inl (Exc WindowsCleanupError
            (''All removal strategies failed for '' @ path_str scratch_dir @ '': '' @
             msg locked_error @ '', '' @ msg locked_error @ '', '' @ msg locked_error)
            (Some locked_error)) \<and>
   fst (adapter_safe_rmtree posix_adapter scratch_dir True locked_host) = Inr False \<and>
   fst (adapter_safe_rmtree windows_adapter scratch_dir True locked_host) = Inr False"
proof -
  have h: "path_exists scratch_dir (snd (zero_stats, locked_host)) \<and>
    fst (rmtree_with_retries default_config scratch_dir (zero_stats, locked_host)) = Inl locked_error \<and>
    fst (force_rmtree scratch_dir
          (snd (rmtree_with_retries default_config scratch_dir (zero_stats, locked_host)))) =
      Inl locked_error \<and>
    fst (manual_rmtree default_config scratch_dir 0
          (snd (force_rmtree scratch_dir
                 (snd (rmtree_with_retries default_config scratch_dir (zero_stats, locked_host)))))) =
      Inl locked_error"
    by code_simp
  have hp: "\<not> (is_windows posix_adapter \<and> windows_cleanup_importable posix_adapter) \<and>
      fst (shutil_rmtree raise_handler scratch_dir ((), locked_host)) = Inl locked_error"
    by code_simp
  have hw: "is_windows windows_adapter \<and> windows_cleanup_importable windows_adapter"
    by code_simp
  note posix = teardown_error_policy [of default_config scratch_dir "(zero_stats, locked_host)"
      posix_adapter locked_host locked_error locked_error locked_error True]
  note windows = teardown_error_policy [of default_config scratch_dir "(zero_stats, locked_host)"
      windows_adapter locked_host locked_error locked_error locked_error True]
  have a: "fst (safe_rmtree default_config scratch_dir True (zero_stats, locked_host)) = Inr False"
    and b: "fst (safe_rmtree default_config scratch_dir False (zero_stats, locked_host)) =
     Inl (Exc WindowsCleanupError
            (''All removal strategies failed for '' @ path_str scratch_dir @ '': '' @
             msg locked_error @ '', '' @ msg locked_error @ '', '' @ msg locked_error)
            (Some locked_error))"
    and c: "fst (adapter_safe_rmtree posix_adapter scratch_dir True locked_host) = Inr False"
    using posix h hp by blast+
  have "fst (adapter_safe_rmtree windows_adapter scratch_dir True locked_host) =
          fst (safe_rmtree default_config scratch_dir True (zero_stats, locked_host))"
    using windows hw by blast
  then show ?thesis
    using a b c by simp
qed

text \<open>
  C2 does not hold of the code: teardown can return \<open>True\<close> when the removal has
  failed. On a directory whose every listing is denied the first two strategies raise,
  \<open>_manual_rmtree\<close> takes the denied listing for an empty directory and returns, and
  teardown returns \<open>True\<close> although nothing was removed and the directory is still
  there.
\<close>

theorem C2_unlisted_directory_reported_removed:
  "path_exists scratch_dir unlistable_host \<and>
   fst (rmtree_with_retries default_config scratch_dir (zero_stats, unlistable_host)) = Inl denied_error \<and>
   fst (force_rmtree scratch_dir
          (snd (rmtree_with_retries default_config scratch_dir (zero_stats, unlistable_host)))) =
     Inl denied_error \<and>
   fst (manual_rmtree default_config scratch_dir 0
          (snd (force_rmtree scratch_dir
                 (snd (rmtree_with_retries default_config scratch_dir (zero_stats, unlistable_host)))))) =
     Inr () \<and>
   fst (safe_rmtree default_config scratch_dir True (zero_stats, unlistable_host)) = Inr True \<and>
   fst (safe_rmtree default_config scratch_dir False (zero_stats, unlistable_host)) = Inr True \<and>
   fst (adapter_safe_rmtree windows_adapter scratch_dir True unlistable_host) = Inr True \<and>
   path_exists scratch_dir (snd (adapter_safe_rmtree windows_adapter scratch_dir True unlistable_host)) \<and>
   fs (snd (adapter_safe_rmtree windows_adapter scratch_dir True unlistable_host)) = fs unlistable_host"
  by code_simp

section \<open>The handles\<close>

lemma cleanup_name_None: "name (fst (snd (cleanup self w))) = None"
  by (auto simp: cleanup_def split: option.splits prod.splits sum.splits)

lemma cleanup_torn_down: "name self = None \<Longrightarrow> cleanup self w = (Inr (), self, w)"
  by (simp add: cleanup_def)

lemma sd_cleanup_temp_dir_None: "temp_dir (fst (snd (sd_cleanup self w))) = None"
proof (cases "temp_dir self")
  case None
  then show ?thesis by (simp add: sd_cleanup_def)
next
  case (Some d)
  obtain b w1 where "adapter_safe_rmtree (sd_adapter self) d True w = (Inr b, w1)"
    by (rule adapter_safe_rmtree_ignore_cases)
  with Some show ?thesis by (simp add: sd_cleanup_def)
qed

text \<open>
  C8. On a handle that is torn down (\<open>name\<close>, or \<open>temp_dir\<close>, is \<open>None\<close>) \<open>cleanup\<close>
  returns at once: no exception, the handle and the host unchanged, so no primitive is
  called. A \<open>SafeTempDir\<close> is torn down after any \<open>cleanup\<close>, so its second \<open>cleanup\<close>
  in a row returns \<open>True\<close> and changes nothing.
\<close>

theorem C8_cleanup_of_torn_down_handle_is_noop:
  "(name self = None \<longrightarrow> cleanup self w = (Inr (), self, w)) \<and>
   (temp_dir sd = None \<longrightarrow> sd_cleanup sd w = (True, sd, w)) \<and>
   sd_cleanup (fst (snd (sd_cleanup sd w))) (snd (snd (sd_cleanup sd w))) =
     (True, snd (sd_cleanup sd w))"
proof -
  have "sd_cleanup (fst (snd (sd_cleanup sd w))) (snd (snd (sd_cleanup sd w))) =
     (True, snd (sd_cleanup sd w))"
    using sd_cleanup_temp_dir_None [of sd w]
    by (simp add: sd_cleanup_def [of "fst (snd (sd_cleanup sd w))"])
  then show ?thesis
    by (simp add: cleanup_torn_down sd_cleanup_def)
qed

theorem C8_cleanup_of_torn_down_handle_is_noop_witness:
  "name entered_handle = Some [''tmp'', ''audit_k3x9''] \<and>
   trace (snd (snd (cleanup entered_handle entered_host))) =
     [Call Mkdir [''tmp'', ''audit_k3x9''] None, Call Scandir [''tmp'', ''audit_k3x9''] None,
      Call Rmdir [''tmp'', ''audit_k3x9''] None] \<and>
   cleanup (fst (snd (cleanup entered_handle entered_host)))
           (snd (snd (cleanup entered_handle entered_host))) =
     (Inr (), snd (cleanup entered_handle entered_host)) \<and>
   temp_dir created_SafeTempDir = Some [''tmp'', ''claude_temp_k3x9''] \<and>
   trace (snd (snd (sd_cleanup created_SafeTempDir created_host))) =
     [Call Mkdir [''tmp'', ''claude_temp_k3x9''] None, Call Scandir [''tmp'', ''claude_temp_k3x9''] None,
      Call Rmdir [''tmp'', ''claude_temp_k3x9''] None] \<and>
   sd_cleanup (fst (snd (sd_cleanup created_SafeTempDir created_host)))
              (snd (snd (sd_cleanup created_SafeTempDir created_host))) =
     (True, snd (sd_cleanup created_SafeTempDir created_host))"
proof -
  have ev: "name entered_handle = Some [''tmp'', ''audit_k3x9''] \<and>
      trace (snd (snd (cleanup entered_handle entered_host))) =
        [Call Mkdir [''tmp'', ''audit_k3x9''] None, Call Scandir [''tmp'', ''audit_k3x9''] None,
         Call Rmdir [''tmp'', ''audit_k3x9''] None] \<and>
      temp_dir created_SafeTempDir = Some [''tmp'', ''claude_temp_k3x9''] \<and>
      trace (snd (snd (sd_cleanup created_SafeTempDir created_host))) =
        [Call Mkdir [''tmp'', ''claude_temp_k3x9''] None, Call Scandir [''tmp'', ''claude_temp_k3x9''] None,
         Call Rmdir [''tmp'', ''claude_temp_k3x9''] None]"
    by code_simp
  have h1: "name (fst (snd (cleanup entered_handle entered_host))) = None"
    by code_simp
  have h2: "temp_dir (fst (snd (sd_cleanup created_SafeTempDir created_host))) = None"
    by code_simp
  have a: "cleanup (fst (snd (cleanup entered_handle entered_host)))
                   (snd (snd (cleanup entered_handle entered_host))) =
             (Inr (), fst (snd (cleanup entered_handle entered_host)),
              snd (snd (cleanup entered_handle entered_host)))"
    using C8_cleanup_of_torn_down_handle_is_noop
            [of "fst (snd (cleanup entered_handle entered_host))"
                "snd (snd (cleanup entered_handle entered_host))"
                "fst (snd (sd_cleanup created_SafeTempDir created_host))"] h1
    by blast
  have b: "sd_cleanup (fst (snd (sd_cleanup created_SafeTempDir created_host)))
                      (snd (snd (sd_cleanup created_SafeTempDir created_host))) =
             (True, fst (snd (sd_cleanup created_SafeTempDir created_host)),
              snd (snd (sd_cleanup created_SafeTempDir created_host)))"
    using C8_cleanup_of_torn_down_handle_is_noop
            [of "fst (snd (cleanup entered_handle entered_host))"
                "snd (snd (sd_cleanup created_SafeTempDir created_host))"
                "fst (snd (sd_cleanup created_SafeTempDir created_host))"] h2
    by blast
  show ?thesis
    using ev a b by simp
qed

text \<open>
  C10. After any call of \<open>SafeTemporaryDirectory.cleanup\<close>, whatever the removal did,
  the handle's \<open>name\<close> is \<open>None\<close>; a later \<open>cleanup\<close>, \<open>__exit__\<close> or \<open>__del__\<close> on that
  handle returns without touching the host, so the removal is not tried again.
\<close>

theorem C10_cleanup_always_clears_name:
  "name (fst (snd (cleanup self w))) = None \<and>
   cleanup (fst (snd (cleanup self w))) w' = (Inr (), fst (snd (cleanup self w)), w') \<and>
   exit (fst (snd (cleanup self w))) w' = (Inr (), fst (snd (cleanup self w)), w') \<and>
   del (fst (snd (cleanup self w))) w' = (fst (snd (cleanup self w)), w')"
  using cleanup_name_None [of self w]
  by (simp add: cleanup_torn_down exit_def del_def)

section \<open>Scope exit\<close>

lemma exit_default_mode:
  assumes "ignore_cleanup_errors self" and "name self = Some d"
  shows "exit self w =
           (Inr (), self\<lparr>name := None\<rparr>, snd (adapter_safe_rmtree (platform_adapter self) d True w))"
proof -
  obtain b w1 where "adapter_safe_rmtree (platform_adapter self) d True w = (Inr b, w1)"
    by (rule adapter_safe_rmtree_ignore_cases)
  with assms show ?thesis
    by (simp add: exit_def cleanup_def cleanup_try_def)
qed

lemma enter_Inr:
  assumes "fst (enter self w) = Inr d"
  shows "name (fst (snd (enter self w))) = Some d"
    and "ignore_cleanup_errors (fst (snd (enter self w))) = ignore_cleanup_errors self"
    and "platform_adapter (fst (snd (enter self w))) = platform_adapter self"
  using assms by (auto simp: enter_def split: if_splits prod.splits sum.splits)

lemma mkdtemp_loop_nonempty: "fst (mkdtemp_loop pre names w) = Inr d \<Longrightarrow> d \<noteq> []"
  by (induction names arbitrary: w) (auto split: prod.splits sum.splits if_splits)

lemma adapter_create_safe_tempdir_nonempty:
  "fst (adapter_create_safe_tempdir ad pre w) = Inr d \<Longrightarrow> d \<noteq> []"
  by (auto simp: adapter_create_safe_tempdir_def windows_create_safe_tempdir_def mkdtemp_def
      dest: mkdtemp_loop_nonempty split: if_splits)

text \<open>
  A handle made with \<open>ignore_cleanup_errors=False\<close> is in strict mode: when the body
  raises \<open>ValueError\<close> and the removal of the directory fails, the caller of the
  \<open>with\<close> block receives the error of the removal.
\<close>

lemma strict_handle_raises_teardown_error:
  "fst (with_SafeTemporaryDirectory strict_handle raising_body busy_host) = Inl locked_error"
  by code_simp

text \<open>
  C3, as the claim states it, fails for the context manager \<open>safe_temp_directory\<close>, whose
  body raises \<open>ValueError\<close> in both runs. In the first the body has removed the
  directory itself: scope exit makes no teardown call (the trace ends with the body's
  \<open>rmdir\<close>, whereas one teardown call on that host adds a \<open>scandir\<close>). In the second
  \<open>auto_cleanup\<close> is \<open>False\<close>: scope exit makes no teardown call and the directory is
  left behind.
\<close>

theorem C3_teardown_not_invoked_counterexample:
  "fst (safe_temp_directory posix_adapter ''audit_'' True removing_body fresh_host) = Inl test_exception \<and>
   trace (snd (safe_temp_directory posix_adapter ''audit_'' True removing_body fresh_host)) =
     [Call Mkdir [''tmp'', ''audit_k3x9''] None, Call Rmdir [''tmp'', ''audit_k3x9''] None] \<and>
   trace (snd (adapter_safe_rmtree posix_adapter [''tmp'', ''audit_k3x9''] True
                 (snd (safe_temp_directory posix_adapter ''audit_'' True removing_body fresh_host)))) =
     [Call Mkdir [''tmp'', ''audit_k3x9''] None, Call Rmdir [''tmp'', ''audit_k3x9''] None,
      Call Scandir [''tmp'', ''audit_k3x9'']
        (Some (os_error FileNotFoundError ''[Errno 2] No such file or directory'' [''tmp'', ''audit_k3x9'']))] \<and>
   fst (safe_temp_directory posix_adapter ''audit_'' False raising_body fresh_host) = Inl test_exception \<and>
   trace (snd (safe_temp_directory posix_adapter ''audit_'' False raising_body fresh_host)) =
     [Call Mkdir [''tmp'', ''audit_k3x9''] None] \<and>
   path_exists [''tmp'', ''audit_k3x9'']
     (snd (safe_temp_directory posix_adapter ''audit_'' False raising_body fresh_host))"
  by code_simp

text \<open>
  C3, amended. A \<open>SafeTemporaryDirectory\<close> in its default mode
  (\<open>ignore_cleanup_errors=True\<close>) whose body raises \<open>e\<close>: the \<open>with\<close> block raises
  \<open>e\<close>, the host after it is the host the body left after one call of the adapter's
  \<open>safe_rmtree\<close> with \<open>ignore_errors=True\<close>, and the handle is torn down. The context
  manager \<open>safe_temp_directory\<close> whose body raises \<open>e\<close>: it raises \<open>e\<close>, and the host
  after it is the host the body left after one such call when \<open>auto_cleanup\<close> is set and
  the directory still exists, and the host the body left otherwise.
\<close>

theorem C3_body_exception_propagates:
  "(ignore_cleanup_errors self \<and> fst (enter self w) = Inr d \<and>
    fst (body d (snd (snd (enter self w)))) = Inl e
    \<longrightarrow> fst (with_SafeTemporaryDirectory self body w) = Inl e \<and>
        name (fst (snd (with_SafeTemporaryDirectory self body w))) = None \<and>
        snd (snd (with_SafeTemporaryDirectory self body w)) =
          snd (adapter_safe_rmtree (platform_adapter self) d True
                 (snd (body d (snd (snd (enter self w))))))) \<and>
   (fst (adapter_create_safe_tempdir ad pre w) = Inr d \<and>
    fst (body d (snd (adapter_create_safe_tempdir ad pre w))) = Inl e
    \<longrightarrow> fst (safe_temp_directory ad pre auto_cleanup body w) = Inl e \<and>
        snd (safe_temp_directory ad pre auto_cleanup body w) =
          (if auto_cleanup \<and> path_exists d (snd (body d (snd (adapter_create_safe_tempdir ad pre w))))
           then snd (adapter_safe_rmtree ad d True (snd (body d (snd (adapter_create_safe_tempdir ad pre w)))))
           else snd (body d (snd (adapter_create_safe_tempdir ad pre w)))))"
proof (intro conjI impI)
  assume a: "ignore_cleanup_errors self \<and> fst (enter self w) = Inr d \<and>
    fst (body d (snd (snd (enter self w)))) = Inl e"
  obtain self1 w1 where en: "enter self w = (Inr d, self1, w1)"
    using a by (cases "enter self w") auto
  obtain w2 where bo: "body d w1 = (Inl e, w2)"
    using a en by (cases "body d w1") auto
  have s1: "name self1 = Some d" "ignore_cleanup_errors self1" "platform_adapter self1 = platform_adapter self"
    using enter_Inr [of self w d] a en by simp_all
  have ex: "exit self1 w2 =
      (Inr (), self1\<lparr>name := None\<rparr>, snd (adapter_safe_rmtree (platform_adapter self) d True w2))"
    using exit_default_mode [of self1 d w2] s1 by simp
  have res: "with_SafeTemporaryDirectory self body w =
      (Inl e, self1\<lparr>name := None\<rparr>, snd (adapter_safe_rmtree (platform_adapter self) d True w2))"
    by (simp add: with_SafeTemporaryDirectory_def en bo ex)
  show "fst (with_SafeTemporaryDirectory self body w) = Inl e"
    by (simp add: res)
  show "name (fst (snd (with_SafeTemporaryDirectory self body w))) = None"
    by (simp add: res)
  show "snd (snd (with_SafeTemporaryDirectory self body w)) =
          snd (adapter_safe_rmtree (platform_adapter self) d True
                 (snd (body d (snd (snd (enter self w))))))"
    by (simp add: res en bo)
next
  assume a: "fst (adapter_create_safe_tempdir ad pre w) = Inr d \<and>
    fst (body d (snd (adapter_create_safe_tempdir ad pre w))) = Inl e"
  obtain w1 where cr: "adapter_create_safe_tempdir ad pre w = (Inr d, w1)"
    using a by (cases "adapter_create_safe_tempdir ad pre w") auto
  obtain w2 where bo: "body d w1 = (Inl e, w2)"
    using a cr by (cases "body d w1") auto
  have ne: "d \<noteq> []"
    using a adapter_create_safe_tempdir_nonempty by blast
  show "fst (safe_temp_directory ad pre auto_cleanup body w) = Inl e"
    by (simp add: safe_temp_directory_def cr bo)
  show "snd (safe_temp_directory ad pre auto_cleanup body w) =
          (if auto_cleanup \<and> path_exists d (snd (body d (snd (adapter_create_safe_tempdir ad pre w))))
           then snd (adapter_safe_rmtree ad d True (snd (body d (snd (adapter_create_safe_tempdir ad pre w)))))
           else snd (body d (snd (adapter_create_safe_tempdir ad pre w))))"
    by (simp add: safe_temp_directory_def cr bo ne)
qed

theorem C3_body_exception_propagates_witness:
  "fst (with_SafeTemporaryDirectory default_handle raising_body busy_host) = Inl test_exception \<and>
   name (fst (snd (with_SafeTemporaryDirectory default_handle raising_body busy_host))) = None \<and>
   fst (safe_temp_directory posix_adapter ''audit_'' True raising_body busy_host) = Inl test_exception"
proof -
  have h: "ignore_cleanup_errors default_handle \<and>
      fst (enter default_handle busy_host) = Inr [''tmp'', ''audit_k3x9''] \<and>
      fst (raising_body [''tmp'', ''audit_k3x9''] (snd (snd (enter default_handle busy_host)))) =
        Inl test_exception \<and>
      fst (adapter_create_safe_tempdir posix_adapter ''audit_'' busy_host) = Inr [''tmp'', ''audit_k3x9''] \<and>
      fst (raising_body [''tmp'', ''audit_k3x9'']
            (snd (adapter_create_safe_tempdir posix_adapter ''audit_'' busy_host))) = Inl test_exception"
    by code_simp
  from C3_body_exception_propagates
         [of default_handle busy_host "[''tmp'', ''audit_k3x9'']" raising_body test_exception
             posix_adapter "''audit_''" True] h
  show ?thesis by blast
qed

section \<open>The strategy chain on a host that is not Windows\<close>

text \<open>
  C6, as the claim states it, fails: on a host that is not Windows, with a file whose
  first \<open>unlink\<close> is denied, teardown returns \<open>False\<close> after the two primitive calls of
  \<open>shutil.rmtree\<close> and leaves the directory, although \<open>_manual_rmtree\<close> on the host it
  leaves removes the directory.
\<close>

theorem C6_posix_no_fall_through_counterexample:
  "fst (adapter_safe_rmtree posix_adapter scratch_dir True flaky_host) = Inr False \<and>
   path_exists scratch_dir (snd (adapter_safe_rmtree posix_adapter scratch_dir True flaky_host)) \<and>
   trace (snd (adapter_safe_rmtree posix_adapter scratch_dir True flaky_host)) =
     [Call Scandir scratch_dir None, Call Unlink (scratch_dir @ [''notes.txt'']) (Some locked_error)] \<and>
   fst (manual_rmtree default_config scratch_dir 0
          (zero_stats, snd (adapter_safe_rmtree posix_adapter scratch_dir True flaky_host))) = Inr () \<and>
   \<not> path_exists scratch_dir
       (snd (snd (manual_rmtree default_config scratch_dir 0
          (zero_stats, snd (adapter_safe_rmtree posix_adapter scratch_dir True flaky_host)))))"
  by code_simp

section \<open>The statistics\<close>

text \<open>
  C9. A directory holding one file, on a Windows host that injects no failure: the
  first strategy removes the file and the directory (one successful \<open>unlink\<close>, one
  successful \<open>rmdir\<close>), \<open>safe_rmtree\<close> returns \<open>True\<close>, and the counters
  \<open>files_removed\<close> and \<open>dirs_removed\<close> are both 0.
\<close>

theorem C9_counters_after_standard_removal:
  "fst (safe_rmtree default_config scratch_dir False (zero_stats, quiet_host)) = Inr True \<and>
   trace (snd (snd (safe_rmtree default_config scratch_dir False (zero_stats, quiet_host)))) =
     [Call Scandir scratch_dir None, Call Unlink (scratch_dir @ [''notes.txt'']) None,
      Call Rmdir scratch_dir None] \<and>
   \<not> path_exists scratch_dir (snd (snd (safe_rmtree default_config scratch_dir False (zero_stats, quiet_host)))) \<and>
   files_removed (fst (snd (safe_rmtree default_config scratch_dir False (zero_stats, quiet_host)))) = 0 \<and>
   dirs_removed (fst (snd (safe_rmtree default_config scratch_dir False (zero_stats, quiet_host)))) = 0"
  by code_simp

section \<open>Traces of the primitives\<close>

lemma extendsI: "trace w' = trace w @ evs \<Longrightarrow> extends w w'"
  by (simp add: extends_def)

lemma new_eventsI: "trace w' = trace w @ evs \<Longrightarrow> new_events w w' = evs"
  by (simp add: new_events_def)

lemma call_prim_trace:
  "trace (snd (call_prim pr p w)) =
     trace w @ [Call pr p (case fst (call_prim pr p w) of Inl e \<Rightarrow> Some e | Inr u \<Rightarrow> None)]"
  by (simp add: call_prim_def split: option.splits sum.splits)

lemma calls_ok_append [simp]: "calls_ok (a @ b) = (calls_ok a \<and> calls_ok b)"
  by (induction a rule: calls_ok.induct) auto

lemma uses_prim_append [simp]: "uses_prim pr (a @ b) = (uses_prim pr a \<or> uses_prim pr b)"
  by (induction pr a rule: uses_prim.induct) auto

lemma calls_ok_butlast: "calls_ok a \<Longrightarrow> calls_ok (butlast a)"
  by (induction a rule: calls_ok.induct) auto

lemma calls_ok_butlast_append: "calls_ok a \<Longrightarrow> calls_ok (butlast b) \<Longrightarrow> calls_ok (butlast (a @ b))"
  by (cases "b = []") (simp_all add: calls_ok_butlast butlast_append)

section \<open>\<open>shutil.rmtree\<close> without a handler stops at the first error\<close>

text \<open>
  The events a run of \<open>rmtree\<close> adds when no handler is given: no \<open>chmod\<close>, no
  \<open>listdir\<close>, and no failed call except, when it raises, the last one.
\<close>

lemma guarded_raise_handler:
  "guarded raise_handler pr p sw = (fst (call_prim pr p (snd sw)), fst sw, snd (call_prim pr p (snd sw)))"
  by (cases "call_prim pr p (snd sw)") (auto simp: guarded_def raise_handler_def split: sum.splits)

lemma native_guarded:
  assumes "pr \<noteq> Chmod" and "pr \<noteq> Listdir"
  shows "\<exists>evs. trace (snd (snd (guarded raise_handler pr p sw))) = trace (snd sw) @ evs \<and>
           \<not> uses_prim Chmod evs \<and> \<not> uses_prim Listdir evs \<and>
           calls_ok (case fst (guarded raise_handler pr p sw) of Inr u \<Rightarrow> evs | Inl e \<Rightarrow> butlast evs)"
  using assms call_prim_trace [of pr p "snd sw"]
  by (auto simp: guarded_raise_handler split: sum.splits)

lemma native_rmtree_unsafe:
  fixes sw :: "unit \<times> world"
  shows "h = raise_handler \<Longrightarrow>
      \<exists>evs. trace (snd (snd (rmtree_unsafe h n p sw))) = trace (snd sw) @ evs \<and>
           \<not> uses_prim Chmod evs \<and> \<not> uses_prim Listdir evs \<and>
           calls_ok (case fst (rmtree_unsafe h n p sw) of Inr u \<Rightarrow> evs | Inl e \<Rightarrow> butlast evs)"
    and "h = raise_handler \<Longrightarrow>
      \<exists>evs. trace (snd (snd (rmtree_entries h n p es sw))) = trace (snd sw) @ evs \<and>
           \<not> uses_prim Chmod evs \<and> \<not> uses_prim Listdir evs \<and>
           calls_ok (case fst (rmtree_entries h n p es sw) of Inr u \<Rightarrow> evs | Inl e \<Rightarrow> butlast evs)"
proof (induction h n p sw and h n p es sw rule: rmtree_unsafe_rmtree_entries.induct)
  case (1 h p sw)
  then show ?case by simp
next
  case (2 h n p sw)
  note h = \<open>h = raise_handler\<close>
  obtain r1 w1 where sc: "os_scandir p (snd sw) = (r1, w1)"
    by (cases "os_scandir p (snd sw)")
  have tr1: "trace w1 = trace (snd sw) @
      [Call Scandir p (case r1 of Inl e \<Rightarrow> Some e | Inr u \<Rightarrow> None)]"
    using sc call_prim_trace [of Scandir p "snd sw"]
    by (auto simp: os_scandir_def split: prod.splits sum.splits)
  show ?case
  proof (cases r1)
    case (Inl e)
    then show ?thesis
      using sc tr1 h by (auto simp: raise_handler_def)
  next
    case (Inr entries)
    obtain r2 sw2 where en: "rmtree_entries h n p entries (fst sw, w1) = (r2, sw2)"
      by (cases "rmtree_entries h n p entries (fst sw, w1)")
    from "2.IH" [OF sc [symmetric] Inr h] en
    obtain evs2 where e2: "trace (snd sw2) = trace w1 @ evs2"
      "\<not> uses_prim Chmod evs2" "\<not> uses_prim Listdir evs2"
      "calls_ok (case r2 of Inr u \<Rightarrow> evs2 | Inl e \<Rightarrow> butlast evs2)"
      by auto
    show ?thesis
    proof (cases r2)
      case (Inl e)
      have "calls_ok (butlast ([Call Scandir p None] @ evs2))"
        using e2(4) Inl by (intro calls_ok_butlast_append) simp_all
      then show ?thesis
        using sc Inr en Inl e2 tr1 h by simp
    next
      case r2: (Inr u)
      obtain evs3 where e3: "trace (snd (snd (guarded raise_handler Rmdir p sw2))) = trace (snd sw2) @ evs3"
        "\<not> uses_prim Chmod evs3" "\<not> uses_prim Listdir evs3"
        "calls_ok (case fst (guarded raise_handler Rmdir p sw2) of Inr u \<Rightarrow> evs3 | Inl e \<Rightarrow> butlast evs3)"
        using native_guarded [of Rmdir p sw2] by auto
      have ok2: "calls_ok ([Call Scandir p None] @ evs2)"
        using e2(4) r2 by simp
      have "calls_ok (case fst (guarded raise_handler Rmdir p sw2) of
                        Inr u \<Rightarrow> Call Scandir p None # evs2 @ evs3
                      | Inl e \<Rightarrow> butlast (Call Scandir p None # evs2 @ evs3))"
        using e3(4) ok2 calls_ok_butlast_append [OF ok2, of evs3]
        by (cases "fst (guarded raise_handler Rmdir p sw2)") simp_all
      then show ?thesis
        using sc Inr en r2 e2 e3 tr1 h by simp
    qed
  qed
next
  case (3 h n p sw)
  then show ?case by simp
next
  case (4 h n p entry entries sw)
  note h = \<open>h = raise_handler\<close>
  define step where "step = (if snd entry then rmtree_unsafe h n (p @ [fst entry]) sw
            else guarded h Unlink (p @ [fst entry]) sw)"
  obtain r1 sw1 where st: "step = (r1, sw1)"
    by (cases step)
  have "\<exists>evs. trace (snd (snd step)) = trace (snd sw) @ evs \<and>
           \<not> uses_prim Chmod evs \<and> \<not> uses_prim Listdir evs \<and>
           calls_ok (case fst step of Inr u \<Rightarrow> evs | Inl e \<Rightarrow> butlast evs)"
  proof (cases "snd entry")
    case True
    then show ?thesis
      using "4.IH"(1) [OF True h] by (simp add: step_def)
  next
    case False
    then show ?thesis
      using native_guarded [of Unlink "p @ [fst entry]" sw] h by (simp add: step_def)
  qed
  then obtain evs1 where e1: "trace (snd sw1) = trace (snd sw) @ evs1"
      "\<not> uses_prim Chmod evs1" "\<not> uses_prim Listdir evs1"
      "calls_ok (case r1 of Inr u \<Rightarrow> evs1 | Inl e \<Rightarrow> butlast evs1)"
    using st by auto
  show ?case
  proof (cases r1)
    case (Inl e)
    then show ?thesis
      using st e1 by (simp add: step_def [symmetric])
  next
    case (Inr u)
    from "4.IH"(2) [OF st [unfolded step_def, symmetric] Inr h]
    obtain evs2 where e2: "trace (snd (snd (rmtree_entries h n p entries sw1))) = trace (snd sw1) @ evs2"
      "\<not> uses_prim Chmod evs2" "\<not> uses_prim Listdir evs2"
      "calls_ok (case fst (rmtree_entries h n p entries sw1) of Inr u \<Rightarrow> evs2 | Inl e \<Rightarrow> butlast evs2)"
      by auto
    have ok1: "calls_ok evs1"
      using e1(4) Inr by simp
    have "calls_ok (case fst (rmtree_entries h n p entries sw1) of
                      Inr u \<Rightarrow> evs1 @ evs2 | Inl e \<Rightarrow> butlast (evs1 @ evs2))"
      using e2(4) ok1 calls_ok_butlast_append [OF ok1, of evs2]
      by (cases "fst (rmtree_entries h n p entries sw1)") simp_all
    then show ?thesis
      using st Inr e1 e2 by (simp add: step_def [symmetric])
  qed
qed

text \<open>
  C6, amended. On a host that is not Windows, teardown is the native recursive delete
  alone: it adds to the trace no \<open>chmod\<close> and no \<open>listdir\<close> (the calls the second and
  third strategies begin with), every call it makes succeeds except, when it does not
  return \<open>True\<close>, the last one, and when the native delete raises \<open>e\<close> teardown
  returns \<open>False\<close> with \<open>ignore_errors\<close> and raises \<open>e\<close> without it, on the host the
  native delete left.
\<close>

theorem C6_posix_teardown_is_native_delete_only:
  "\<not> is_windows ad \<longrightarrow>
     extends w (snd (adapter_safe_rmtree ad p ignore_errors w)) \<and>
     \<not> uses_prim Chmod (new_events w (snd (adapter_safe_rmtree ad p ignore_errors w))) \<and>
     \<not> uses_prim Listdir (new_events w (snd (adapter_safe_rmtree ad p ignore_errors w))) \<and>
     calls_ok (if fst (adapter_safe_rmtree ad p ignore_errors w) = Inr True
               then new_events w (snd (adapter_safe_rmtree ad p ignore_errors w))
               else butlast (new_events w (snd (adapter_safe_rmtree ad p ignore_errors w)))) \<and>
     (fst (shutil_rmtree raise_handler p ((), w)) = Inl e \<longrightarrow>
        adapter_safe_rmtree ad p True w = (Inr False, snd (snd (shutil_rmtree raise_handler p ((), w)))) \<and>
        adapter_safe_rmtree ad p False w = (Inl e, snd (snd (shutil_rmtree raise_handler p ((), w)))))"
proof
  assume nw: "\<not> is_windows ad"
  obtain r w1 where run: "shutil_rmtree raise_handler p ((), w) = (r, (), w1)"
    by (cases "shutil_rmtree raise_handler p ((), w)") auto
  obtain evs where evs: "trace w1 = trace w @ evs" "\<not> uses_prim Chmod evs" "\<not> uses_prim Listdir evs"
      "calls_ok (case r of Inr u \<Rightarrow> evs | Inl e \<Rightarrow> butlast evs)"
  proof (cases "islink p w")
    case True
    then have "trace w1 = trace w @ []" "r = Inl (Exc OSError ''Cannot call rmtree on a symbolic link'' None)"
      using run by (simp_all add: shutil_rmtree_def raise_handler_def)
    then show ?thesis
      using that [of "[]"] by simp
  next
    case False
    then show ?thesis
      using native_rmtree_unsafe(1) [of raise_handler "recursion_limit w" p "((), w)"] run that
      by (auto simp: shutil_rmtree_def)
  qed
  have res: "adapter_safe_rmtree ad p ignore_errors w =
      (case r of Inr u \<Rightarrow> Inr True | Inl e \<Rightarrow> if ignore_errors then Inr False else Inl e, w1)"
    using nw run by (simp add: adapter_safe_rmtree_def standard_rmtree_def split: sum.splits)
  have ext: "extends w w1" and new: "new_events w w1 = evs"
    using evs(1) by (simp_all add: extendsI new_eventsI)
  have ok: "calls_ok (if fst (adapter_safe_rmtree ad p ignore_errors w) = Inr True
               then new_events w (snd (adapter_safe_rmtree ad p ignore_errors w))
               else butlast (new_events w (snd (adapter_safe_rmtree ad p ignore_errors w))))"
    using evs(4) by (cases r) (simp_all add: res new)
  have fail: "fst (shutil_rmtree raise_handler p ((), w)) = Inl e \<longrightarrow>
        adapter_safe_rmtree ad p True w = (Inr False, snd (snd (shutil_rmtree raise_handler p ((), w)))) \<and>
        adapter_safe_rmtree ad p False w = (Inl e, snd (snd (shutil_rmtree raise_handler p ((), w))))"
    using nw by (auto simp: adapter_safe_rmtree_def standard_rmtree_def split: prod.splits sum.splits)
  show "extends w (snd (adapter_safe_rmtree ad p ignore_errors w)) \<and>
     \<not> uses_prim Chmod (new_events w (snd (adapter_safe_rmtree ad p ignore_errors w))) \<and>
     \<not> uses_prim Listdir (new_events w (snd (adapter_safe_rmtree ad p ignore_errors w))) \<and>
     calls_ok (if fst (adapter_safe_rmtree ad p ignore_errors w) = Inr True
               then new_events w (snd (adapter_safe_rmtree ad p ignore_errors w))
               else butlast (new_events w (snd (adapter_safe_rmtree ad p ignore_errors w)))) \<and>
     (fst (shutil_rmtree raise_handler p ((), w)) = Inl e \<longrightarrow>
        adapter_safe_rmtree ad p True w = (Inr False, snd (snd (shutil_rmtree raise_handler p ((), w)))) \<and>
        adapter_safe_rmtree ad p False w = (Inl e, snd (snd (shutil_rmtree raise_handler p ((), w)))))"
    using ok fail ext evs(2,3) by (simp add: res new)
qed

theorem C6_posix_teardown_is_native_delete_only_witness:
  "\<not> uses_prim Chmod (new_events flaky_host (snd (adapter_safe_rmtree posix_adapter scratch_dir True flaky_host))) \<and>
   \<not> uses_prim Listdir (new_events flaky_host (snd (adapter_safe_rmtree posix_adapter scratch_dir True flaky_host))) \<and>
   fst (adapter_safe_rmtree posix_adapter scratch_dir True flaky_host) = Inr False \<and>
   fst (adapter_safe_rmtree posix_adapter scratch_dir False flaky_host) = Inl locked_error"
proof -
  have h1: "\<not> is_windows posix_adapter"
    by (simp add: posix_adapter_def)
  have h2: "fst (shutil_rmtree raise_handler scratch_dir ((), flaky_host)) = Inl locked_error"
    by code_simp
  note t = C6_posix_teardown_is_native_delete_only
         [of posix_adapter flaky_host scratch_dir True locked_error]
  have a: "adapter_safe_rmtree posix_adapter scratch_dir True flaky_host =
             (Inr False, snd (snd (shutil_rmtree raise_handler scratch_dir ((), flaky_host))))"
    and b: "adapter_safe_rmtree posix_adapter scratch_dir False flaky_host =
             (Inl locked_error, snd (snd (shutil_rmtree raise_handler scratch_dir ((), flaky_host))))"
    using t h1 h2 by blast+
  have c: "\<not> uses_prim Chmod (new_events flaky_host (snd (adapter_safe_rmtree posix_adapter scratch_dir True flaky_host)))"
    and d: "\<not> uses_prim Listdir (new_events flaky_host (snd (adapter_safe_rmtree posix_adapter scratch_dir True flaky_host)))"
    using t h1 by blast+
  show ?thesis
    using c d by (simp add: a b)
qed

section \<open>Removing one file: \<open>_safe_remove_file\<close>\<close>

lemma count_calls_append [simp]:
  "count_calls pr p (a @ b) = count_calls pr p a + count_calls pr p b"
  by (induction pr p a rule: count_calls.induct) auto

lemma sleeps_append [simp]: "sleeps (a @ b) = sleeps a @ sleeps b"
  by (induction a rule: sleeps.induct) auto

lemma deepest_append [simp]: "deepest (a @ b) = max (deepest a) (deepest b)"
  by (induction a rule: deepest.induct) auto

lemma time_sleep_trace:
  "time_sleep d w = (r, w') \<Longrightarrow>
     trace w' = trace w @ (case r of Inr u \<Rightarrow> [Sleep d] | Inl e \<Rightarrow> []) \<and>
     (case r of Inl e \<Rightarrow> cls e = ValueError | Inr u \<Rightarrow> True)"
  by (auto simp: time_sleep_def split: if_splits)

text \<open>
  One attempt of \<open>_safe_remove_file\<close>: \<open>chmod\<close>, then \<open>remove\<close> when \<open>chmod\<close> did not
  raise.
\<close>

lemma attempt_trace:
  assumes "(case call_prim Chmod p w of (Inl e, w1) \<Rightarrow> (Inl e, w1)
            | (Inr u, w1) \<Rightarrow> call_prim Unlink p w1) = (r, w2)"
  shows "\<exists>evs. trace w2 = trace w @ evs \<and> count_calls Chmod p evs = 1 \<and>
           count_calls Unlink p evs \<le> 1 \<and> sleeps evs = [] \<and> deepest evs = length p"
proof (cases "call_prim Chmod p w")
  case (Pair r1 w1)
  have t1: "trace w1 = trace w @ [Call Chmod p (case r1 of Inl e \<Rightarrow> Some e | Inr u \<Rightarrow> None)]"
    using call_prim_trace [of Chmod p w] Pair by simp
  show ?thesis
  proof (cases r1)
    case (Inl e)
    then show ?thesis using assms Pair t1 by auto
  next
    case (Inr u)
    have "trace w2 = trace w1 @ [Call Unlink p (case r of Inl e \<Rightarrow> Some e | Inr u \<Rightarrow> None)]"
      using call_prim_trace [of Unlink p w1] assms Pair Inr by simp
    then show ?thesis using t1 Inr by simp
  qed
qed

lemma safe_remove_file_loop_trace:
  "\<exists>evs. trace (snd (safe_remove_file_loop cfg p attempt w)) = trace w @ evs \<and>
     count_calls Chmod p evs \<le> nat (max_retries cfg - attempt) \<and>
     (attempt < max_retries cfg \<longrightarrow> 1 \<le> count_calls Chmod p evs) \<and>
     count_calls Unlink p evs \<le> count_calls Chmod p evs \<and>
     sleeps evs = replicate (count_calls Chmod p evs - 1) (retry_delay cfg) \<and>
     deepest evs \<le> length p \<and>
     (\<forall>e. fst (safe_remove_file_loop cfg p attempt w) = Inl e \<and>
          (cls e = PermissionError \<or> cls e = FileNotFoundError)
          \<longrightarrow> count_calls Chmod p evs = nat (max_retries cfg - attempt))"
proof (induction cfg p attempt w rule: safe_remove_file_loop.induct)
  case (1 cfg p attempt w)
  show ?case
  proof (cases "attempt < max_retries cfg")
    case False
    then have res: "safe_remove_file_loop cfg p attempt w = (Inr (), w)"
      by (subst safe_remove_file_loop.simps) simp
    show ?thesis
      using False by (simp add: res)
  next
    case True
    obtain r w2 where att: "(case call_prim Chmod p w of (Inl e, w1) \<Rightarrow> (Inl e, w1)
            | (Inr u, w1) \<Rightarrow> call_prim Unlink p w1) = (r, w2)"
      by (cases "case call_prim Chmod p w of (Inl e, w1) \<Rightarrow> (Inl e, w1)
            | (Inr u, w1) \<Rightarrow> call_prim Unlink p w1")
    obtain evs1 where e1: "trace w2 = trace w @ evs1" "count_calls Chmod p evs1 = 1"
        "count_calls Unlink p evs1 \<le> 1" "sleeps evs1 = []" "deepest evs1 = length p"
      using attempt_trace [OF att] by auto
    have one: "1 \<le> nat (max_retries cfg - attempt)"
      using True by simp
    show ?thesis
    proof (cases r)
      case (Inr u)
      have res: "safe_remove_file_loop cfg p attempt w = (Inr (), w2)"
        using True att Inr by (subst safe_remove_file_loop.simps) simp
      show ?thesis
        using e1 one by (simp add: res)
    next
      case (Inl e)
      show ?thesis
      proof (cases "cls e = PermissionError \<or> cls e = FileNotFoundError")
        case False
        have res: "safe_remove_file_loop cfg p attempt w = (Inl e, w2)"
          using True att Inl False by (subst safe_remove_file_loop.simps) simp
        show ?thesis
          using e1 one False by (simp add: res)
      next
        case retry: True
        show ?thesis
        proof (cases "attempt = max_retries cfg - 1")
          case last: True
          have res: "safe_remove_file_loop cfg p attempt w = (Inl e, w2)"
            using True att Inl retry last by (subst safe_remove_file_loop.simps) simp
          have "nat (max_retries cfg - attempt) = 1"
            using last by simp
          then show ?thesis
            using e1 by (simp add: res)
        next
          case notlast: False
          obtain r3 w3 where sl: "time_sleep (retry_delay cfg) w2 = (r3, w3)"
            by (cases "time_sleep (retry_delay cfg) w2")
          note st = time_sleep_trace [OF sl]
          show ?thesis
          proof (cases r3)
            case sl_err: (Inl e')
            have res: "safe_remove_file_loop cfg p attempt w = (Inl e', w3)"
              using True att Inl retry notlast sl sl_err
              by (subst safe_remove_file_loop.simps) simp
            have "cls e' = ValueError" "trace w3 = trace w2"
              using st sl_err by simp_all
            then show ?thesis
              using e1 one by (simp add: res)
          next
            case sl_ok: (Inr u)
            from "1.IH" [OF True att [symmetric] Inl retry notlast sl [symmetric] sl_ok]
            obtain evs2 where e2:
              "trace (snd (safe_remove_file_loop cfg p (attempt + 1) w3)) = trace w3 @ evs2"
              "count_calls Chmod p evs2 \<le> nat (max_retries cfg - (attempt + 1))"
              "attempt + 1 < max_retries cfg \<longrightarrow> 1 \<le> count_calls Chmod p evs2"
              "count_calls Unlink p evs2 \<le> count_calls Chmod p evs2"
              "sleeps evs2 = replicate (count_calls Chmod p evs2 - 1) (retry_delay cfg)"
              "deepest evs2 \<le> length p"
              "\<forall>e. fst (safe_remove_file_loop cfg p (attempt + 1) w3) = Inl e \<and>
                  (cls e = PermissionError \<or> cls e = FileNotFoundError)
                  \<longrightarrow> count_calls Chmod p evs2 = nat (max_retries cfg - (attempt + 1))"
              by blast
            have more: "attempt + 1 < max_retries cfg"
              using True notlast by simp
            have res: "safe_remove_file_loop cfg p attempt w =
                safe_remove_file_loop cfg p (attempt + 1) w3"
              using True att Inl retry notlast sl sl_ok
              by (subst safe_remove_file_loop.simps) simp
            have tr: "trace (snd (safe_remove_file_loop cfg p attempt w)) =
                trace w @ (evs1 @ [Sleep (retry_delay cfg)] @ evs2)"
              using res e2(1) st sl_ok e1(1) by simp
            have pos: "1 \<le> count_calls Chmod p evs2"
              using e2(3) more by simp
            have sl2: "sleeps (evs1 @ [Sleep (retry_delay cfg)] @ evs2) =
                replicate (count_calls Chmod p (evs1 @ [Sleep (retry_delay cfg)] @ evs2) - 1) (retry_delay cfg)"
              using e1 e2(5) pos
              by (cases "count_calls Chmod p evs2") simp_all
            have cnt: "count_calls Chmod p (evs1 @ [Sleep (retry_delay cfg)] @ evs2) =
                Suc (count_calls Chmod p evs2)"
              using e1 by simp
            have arith: "nat (max_retries cfg - attempt) = Suc (nat (max_retries cfg - (attempt + 1)))"
              using more by simp
            have c2: "count_calls Chmod p (evs1 @ [Sleep (retry_delay cfg)] @ evs2)
                \<le> nat (max_retries cfg - attempt)"
              using cnt arith e2(2) by simp
            have c4: "count_calls Unlink p (evs1 @ [Sleep (retry_delay cfg)] @ evs2)
                \<le> count_calls Chmod p (evs1 @ [Sleep (retry_delay cfg)] @ evs2)"
              using e1 e2(4) by simp
            have c6: "deepest (evs1 @ [Sleep (retry_delay cfg)] @ evs2) \<le> length p"
              using e1 e2(6) by simp
            have c7: "\<forall>e. fst (safe_remove_file_loop cfg p attempt w) = Inl e \<and>
                  (cls e = PermissionError \<or> cls e = FileNotFoundError)
                  \<longrightarrow> count_calls Chmod p (evs1 @ [Sleep (retry_delay cfg)] @ evs2) =
                      nat (max_retries cfg - attempt)"
              using e2(7) cnt arith res by simp
            have c3: "attempt < max_retries cfg \<longrightarrow>
                1 \<le> count_calls Chmod p (evs1 @ [Sleep (retry_delay cfg)] @ evs2)"
              using cnt by simp
            show ?thesis
              using tr c2 c3 c4 sl2 c6 c7 by blast
          qed
        qed
      qed
    qed
  qed
qed

text \<open>
  An attempt of \<open>_safe_remove_file\<close> is a \<open>chmod\<close> of the file followed, when it did
  not raise, by its removal. On every host the function makes at most \<open>max_retries\<close>
  attempts in all, sleeps \<open>retry_delay\<close> between two attempts and at no other time,
  and raises a \<open>PermissionError\<close> or a \<open>FileNotFoundError\<close> only when \<open>max_retries\<close>
  attempts have been made.
\<close>

lemma safe_remove_file_attempts:
  "extends w (snd (safe_remove_file cfg p w)) \<and>
   count_calls Chmod p (new_events w (snd (safe_remove_file cfg p w))) \<le> nat (max_retries cfg) \<and>
   count_calls Unlink p (new_events w (snd (safe_remove_file cfg p w)))
     \<le> count_calls Chmod p (new_events w (snd (safe_remove_file cfg p w))) \<and>
   sleeps (new_events w (snd (safe_remove_file cfg p w))) =
     replicate (count_calls Chmod p (new_events w (snd (safe_remove_file cfg p w))) - 1) (retry_delay cfg) \<and>
   (fst (safe_remove_file cfg p w) = Inl e \<and> (cls e = PermissionError \<or> cls e = FileNotFoundError)
    \<longrightarrow> count_calls Chmod p (new_events w (snd (safe_remove_file cfg p w))) = nat (max_retries cfg))"
proof -
  obtain evs where evs:
    "trace (snd (safe_remove_file_loop cfg p 0 w)) = trace w @ evs"
    "count_calls Chmod p evs \<le> nat (max_retries cfg - 0)"
    "count_calls Unlink p evs \<le> count_calls Chmod p evs"
    "sleeps evs = replicate (count_calls Chmod p evs - 1) (retry_delay cfg)"
    "\<forall>e. fst (safe_remove_file_loop cfg p 0 w) = Inl e \<and>
          (cls e = PermissionError \<or> cls e = FileNotFoundError)
          \<longrightarrow> count_calls Chmod p evs = nat (max_retries cfg - 0)"
    using safe_remove_file_loop_trace [of cfg p 0 w] by blast
  have "extends w (snd (safe_remove_file cfg p w))"
    and "new_events w (snd (safe_remove_file cfg p w)) = evs"
    using evs(1) by (simp_all add: safe_remove_file_def extendsI new_eventsI)
  then show ?thesis
    using evs(2-5) by (simp add: safe_remove_file_def)
qed

text \<open>
  C7 does not hold of \<open>_safe_remove_file\<close>. With the default \<open>max_retries = 3\<close> and a
  file whose removal is always denied, it raises after three removal attempts and two
  sleeps, not after \<open>1 + max_retries = 4\<close> attempts. With \<open>max_retries = 0\<close> and a file
  that nothing keeps from being removed, it makes no attempt at all and returns
  normally, the file still there.
\<close>

theorem C7_file_removal_attempt_count:
  "fst (safe_remove_file default_config (scratch_dir @ [''notes.txt'']) locked_host) = Inl locked_error \<and>
   count_calls Unlink (scratch_dir @ [''notes.txt''])
     (trace (snd (safe_remove_file default_config (scratch_dir @ [''notes.txt'']) locked_host))) = 3 \<and>
   sleeps (trace (snd (safe_remove_file default_config (scratch_dir @ [''notes.txt'']) locked_host))) =
     [retry_delay default_config, retry_delay default_config] \<and>
   1 + max_retries default_config = 4 \<and>
   fst (safe_remove_file no_retry_config (scratch_dir @ [''notes.txt'']) quiet_host) = Inr () \<and>
   trace (snd (safe_remove_file no_retry_config (scratch_dir @ [''notes.txt'']) quiet_host)) = [] \<and>
   isfile (scratch_dir @ [''notes.txt''])
     (snd (safe_remove_file no_retry_config (scratch_dir @ [''notes.txt'']) quiet_host))"
  by code_simp

section \<open>The depth guard of \<open>_manual_rmtree\<close>\<close>

lemma safe_remove_file_deepest:
  "\<exists>evs. trace (snd (safe_remove_file cfg p w)) = trace w @ evs \<and> deepest evs \<le> length p"
  using safe_remove_file_loop_trace [of cfg p 0 w] unfolding safe_remove_file_def by blast

lemma safe_remove_dir_loop_deepest:
  "\<exists>evs. trace (snd (safe_remove_dir_loop cfg p attempt w)) = trace w @ evs \<and> deepest evs \<le> length p"
proof (induction cfg p attempt w rule: safe_remove_dir_loop.induct)
  case (1 cfg p attempt w)
  obtain r w2 where cp: "call_prim Rmdir p w = (r, w2)"
    by (cases "call_prim Rmdir p w")
  have t2: "trace w2 = trace w @ [Call Rmdir p (case r of Inl e \<Rightarrow> Some e | Inr u \<Rightarrow> None)]"
    using call_prim_trace [of Rmdir p w] cp by simp
  obtain r3 w3 where sl: "time_sleep (retry_delay cfg) w2 = (r3, w3)"
    by (cases "time_sleep (retry_delay cfg) w2")
  note st = time_sleep_trace [OF sl]
  show ?case
  proof (cases "attempt < max_retries cfg \<and> (\<exists>e. r = Inl e \<and> is_OSError (cls e)) \<and>
                attempt \<noteq> max_retries cfg - 1 \<and> (\<exists>u. r3 = Inr u)")
    case True
    then obtain e where e: "r = Inl e" "is_OSError (cls e)"
      by blast
    have res: "safe_remove_dir_loop cfg p attempt w = safe_remove_dir_loop cfg p (attempt + 1) w3"
      using True cp sl e by (subst safe_remove_dir_loop.simps) auto
    from "1.IH" [OF _ cp [symmetric] e(1) e(2) _ sl [symmetric]] True
    obtain evs2 where e2: "trace (snd (safe_remove_dir_loop cfg p (attempt + 1) w3)) = trace w3 @ evs2"
        "deepest evs2 \<le> length p"
      by blast
    have "trace (snd (safe_remove_dir_loop cfg p attempt w)) =
        trace w @ ([Call Rmdir p (Some e), Sleep (retry_delay cfg)] @ evs2)"
      using res e2(1) st True t2 e(1) by auto
    moreover have "deepest ([Call Rmdir p (Some e), Sleep (retry_delay cfg)] @ evs2) \<le> length p"
      using e2(2) by simp
    ultimately show ?thesis by blast
  next
    case False
    have "trace (snd (safe_remove_dir_loop cfg p attempt w)) = trace w \<or>
          trace (snd (safe_remove_dir_loop cfg p attempt w)) = trace w2"
      using False cp sl st
      by (subst safe_remove_dir_loop.simps, subst (2) safe_remove_dir_loop.simps)
         (auto split: sum.splits)
    then show ?thesis
      using t2 by auto
  qed
qed

lemma safe_remove_dir_deepest:
  "\<exists>evs. trace (snd (safe_remove_dir cfg p w)) = trace w @ evs \<and> deepest evs \<le> length p"
  using safe_remove_dir_loop_deepest [of cfg p 0 w] unfolding safe_remove_dir_def .

lemma os_listdir_trace:
  "trace (snd (os_listdir p w)) =
     trace w @ [Call Listdir p (case fst (os_listdir p w) of Inl e \<Rightarrow> Some e | Inr u \<Rightarrow> None)]"
  using call_prim_trace [of Listdir p w]
  by (auto simp: os_listdir_def split: prod.splits sum.splits)

text \<open>
  Whatever the filesystem holds, a call of \<open>_manual_rmtree\<close> on \<open>p\<close> at depth \<open>d\<close>
  calls no primitive on a path more than \<open>max_depth + 1 - d\<close> components longer than
  \<open>p\<close>: each recursive call goes one component down and one level deeper.
\<close>

lemma manual_rmtree_deepest:
  "\<exists>evs. trace (snd (snd (manual_rmtree cfg p d sw))) = trace (snd sw) @ evs \<and>
         deepest evs \<le> length p + nat (max_depth cfg + 1 - d)"
  and "\<exists>evs. trace (snd (snd (manual_entries cfg p es d sw))) = trace (snd sw) @ evs \<and>
         deepest evs \<le> length p + 1 + nat (max_depth cfg - d)"
proof (induction cfg p d sw and cfg p es d sw rule: manual_rmtree_manual_entries.induct)
  case (1 cfg p d sw)
  note unf = manual_rmtree.simps [of cfg p d sw]
  show ?case
  proof (cases "d > max_depth cfg \<or> \<not> path_exists p (snd sw)")
    case True
    then have "snd (snd (manual_rmtree cfg p d sw)) = snd sw"
      by (auto simp: unf)
    then show ?thesis by simp
  next
    case False
    then have c1: "\<not> d > max_depth cfg" and c2: "\<not> \<not> path_exists p (snd sw)"
      by simp_all
    show ?thesis
    proof (cases "isfile p (snd sw)")
      case True
      have "snd (snd (manual_rmtree cfg p d sw)) = snd (safe_remove_file cfg p (snd sw))"
        using c1 c2 True by (simp add: unf split: prod.splits)
      then show ?thesis
        using safe_remove_file_deepest [of cfg p "snd sw"] by auto
    next
      case nf: False
      obtain r1 w1 where ls: "os_listdir p (snd sw) = (r1, w1)"
        by (cases "os_listdir p (snd sw)")
      have t1: "trace w1 = trace (snd sw) @ [Call Listdir p (case r1 of Inl e \<Rightarrow> Some e | Inr u \<Rightarrow> None)]"
        using os_listdir_trace [of p "snd sw"] ls by simp
      show ?thesis
      proof (cases r1)
        case (Inl e)
        have "snd (snd (manual_rmtree cfg p d sw)) = w1"
          using c1 c2 nf ls Inl by (simp add: unf)
        then show ?thesis
          using t1 by simp
      next
        case (Inr entries)
        obtain r2 sw2 where en: "manual_entries cfg p entries d (fst sw, w1) = (r2, sw2)"
          by (cases "manual_entries cfg p entries d (fst sw, w1)")
        from "1.IH" [OF c1 c2 nf ls [symmetric] Inr] en
        obtain evs2 where e2: "trace (snd sw2) = trace w1 @ evs2"
            "deepest evs2 \<le> length p + 1 + nat (max_depth cfg - d)"
          by auto
        have bound: "length p + 1 + nat (max_depth cfg - d) = length p + nat (max_depth cfg + 1 - d)"
          using c1 by simp
        show ?thesis
        proof (cases r2)
          case (Inl e)
          have "snd (snd (manual_rmtree cfg p d sw)) = snd sw2"
            using c1 c2 nf ls Inr en Inl by (simp add: unf)
          then show ?thesis
            using t1 e2 bound by simp
        next
          case r2: (Inr u)
          have res: "snd (snd (manual_rmtree cfg p d sw)) = snd (safe_remove_dir cfg p (snd sw2))"
            using c1 c2 nf ls Inr en r2 by (simp add: unf split: prod.splits)
          obtain evs3 where e3: "trace (snd (safe_remove_dir cfg p (snd sw2))) = trace (snd sw2) @ evs3"
              "deepest evs3 \<le> length p"
            using safe_remove_dir_deepest [of cfg p "snd sw2"] by blast
          have "trace (snd (snd (manual_rmtree cfg p d sw))) =
                  trace (snd sw) @ (Call Listdir p None # evs2 @ evs3)"
            using res e3(1) e2(1) t1 Inr by simp
          moreover have "deepest (Call Listdir p None # evs2 @ evs3) \<le> length p + nat (max_depth cfg + 1 - d)"
            using e2(2) e3(2) bound by simp
          ultimately show ?thesis by blast
        qed
      qed
    qed
  qed
next
  case (2 cfg p d sw)
  show ?case by (simp add: manual_entries.simps)
next
  case (3 cfg p entry entries d sw)
  note unf = manual_entries.simps(2) [of cfg p entry entries d sw]
  show ?case
  proof (cases "isdir (p @ [entry]) (snd sw)")
    case True
    show ?thesis
    proof (cases "int (recursion_limit (snd sw)) \<le> d + 1")
      case full: True
      have "snd (snd (manual_entries cfg p (entry # entries) d sw)) = snd sw"
        using True full by (simp add: unf)
      then show ?thesis by simp
    next
      case room: False
      obtain r1 sw1 where rec: "manual_rmtree cfg (p @ [entry]) (d + 1) sw = (r1, sw1)"
        by (cases "manual_rmtree cfg (p @ [entry]) (d + 1) sw")
      from "3.IH"(1) [OF True room] rec
      obtain evs1 where e1: "trace (snd sw1) = trace (snd sw) @ evs1"
          "deepest evs1 \<le> length (p @ [entry]) + nat (max_depth cfg + 1 - (d + 1))"
        by auto
      have b1: "deepest evs1 \<le> length p + 1 + nat (max_depth cfg - d)"
        using e1(2) by simp
      show ?thesis
      proof (cases r1)
        case (Inl e)
        have "snd (snd (manual_entries cfg p (entry # entries) d sw)) = snd sw1"
          using True room rec Inl by (simp add: unf)
        then show ?thesis
          using e1(1) b1 by auto
      next
        case (Inr u)
        define sw1' where "sw1' = ((fst sw1)\<lparr>dirs_removed := dirs_removed (fst sw1) + 1\<rparr>, snd sw1)"
        have res: "manual_entries cfg p (entry # entries) d sw = manual_entries cfg p entries d sw1'"
          using True room rec Inr by (simp add: unf sw1'_def)
        from "3.IH"(2) [OF True room rec [symmetric] Inr]
        obtain evs2 where e2: "trace (snd (snd (manual_entries cfg p entries d sw1'))) = trace (snd sw1') @ evs2"
            "deepest evs2 \<le> length p + 1 + nat (max_depth cfg - d)"
          unfolding sw1'_def by blast
        have "trace (snd (snd (manual_entries cfg p (entry # entries) d sw))) = trace (snd sw) @ (evs1 @ evs2)"
          using res e2(1) e1(1) by (simp add: sw1'_def)
        moreover have "deepest (evs1 @ evs2) \<le> length p + 1 + nat (max_depth cfg - d)"
          using b1 e2(2) by simp
        ultimately show ?thesis by blast
      qed
    qed
  next
    case False
    obtain r1 w1 where rm: "safe_remove_file cfg (p @ [entry]) (snd sw) = (r1, w1)"
      by (cases "safe_remove_file cfg (p @ [entry]) (snd sw)")
    obtain evs1 where e1: "trace w1 = trace (snd sw) @ evs1" "deepest evs1 \<le> length (p @ [entry])"
      using safe_remove_file_deepest [of cfg "p @ [entry]" "snd sw"] rm by auto
    have b1: "deepest evs1 \<le> length p + 1 + nat (max_depth cfg - d)"
      using e1(2) by simp
    show ?thesis
    proof (cases r1)
      case (Inl e)
      have "snd (snd (manual_entries cfg p (entry # entries) d sw)) = w1"
        using False rm Inl by (simp add: unf)
      then show ?thesis
        using e1(1) b1 by auto
    next
      case (Inr u)
      define sw1' where "sw1' = ((fst sw)\<lparr>files_removed := files_removed (fst sw) + 1\<rparr>, w1)"
      have res: "manual_entries cfg p (entry # entries) d sw = manual_entries cfg p entries d sw1'"
        using False rm Inr by (simp add: unf sw1'_def)
      from "3.IH"(3) [OF False rm [symmetric] Inr]
      obtain evs2 where e2: "trace (snd (snd (manual_entries cfg p entries d sw1'))) = trace (snd sw1') @ evs2"
          "deepest evs2 \<le> length p + 1 + nat (max_depth cfg - d)"
        unfolding sw1'_def by blast
      have "trace (snd (snd (manual_entries cfg p (entry # entries) d sw))) = trace (snd sw) @ (evs1 @ evs2)"
        using res e2(1) e1(1) by (simp add: sw1'_def)
      moreover have "deepest (evs1 @ evs2) \<le> length p + 1 + nat (max_depth cfg - d)"
        using b1 e2(2) by simp
      ultimately show ?thesis by blast
    qed
  qed
qed

text \<open>
  C5. A call of \<open>_manual_rmtree\<close> at a depth above \<open>max_depth\<close> raises the depth-limit
  error at once: no primitive is called, nothing is recursed into, the host and the
  statistics are unchanged. So on every host a call at depth \<open>current_depth\<close> returns
  (the function is total: its depth argument grows with each recursive call and no call
  above \<open>max_depth\<close> recurses) and touches no path more than
  \<open>max_depth + 1 - current_depth\<close> components below \<open>p\<close>.
\<close>

theorem C5_depth_guard:
  "(max_depth cfg < current_depth \<longrightarrow>
      manual_rmtree cfg p current_depth sw = (Inl (depth_limit_error p), sw)) \<and>
   extends (snd sw) (snd (snd (manual_rmtree cfg p current_depth sw))) \<and>
   deepest (new_events (snd sw) (snd (snd (manual_rmtree cfg p current_depth sw))))
     \<le> length p + nat (max_depth cfg + 1 - current_depth)"
proof -
  obtain evs where evs:
    "trace (snd (snd (manual_rmtree cfg p current_depth sw))) = trace (snd sw) @ evs"
    "deepest evs \<le> length p + nat (max_depth cfg + 1 - current_depth)"
    using manual_rmtree_deepest(1) [of cfg p current_depth sw] by blast
  have "max_depth cfg < current_depth \<longrightarrow>
      manual_rmtree cfg p current_depth sw = (Inl (depth_limit_error p), sw)"
    by (simp add: manual_rmtree.simps [of cfg p current_depth sw])
  then show ?thesis
    using evs by (simp add: extendsI new_eventsI)
qed

theorem C5_depth_guard_witness:
  "manual_rmtree shallow_config [''tmp'', ''deep'', ''a'', ''a'', ''a''] 3 (zero_stats, deep_host) =
     (Inl (depth_limit_error [''tmp'', ''deep'', ''a'', ''a'', ''a'']), zero_stats, deep_host) \<and>
   fst (manual_rmtree shallow_config [''tmp'', ''deep''] 0 (zero_stats, deep_host)) =
     Inl (depth_limit_error [''tmp'', ''deep'', ''a'', ''a'', ''a''])"
proof -
  have h: "max_depth shallow_config < 3"
    by (simp add: shallow_config_def)
  have ev: "fst (manual_rmtree shallow_config [''tmp'', ''deep''] 0 (zero_stats, deep_host)) =
     Inl (depth_limit_error [''tmp'', ''deep'', ''a'', ''a'', ''a''])"
    by code_simp
  from C5_depth_guard [of shallow_config 3 "[''tmp'', ''deep'', ''a'', ''a'', ''a'']"
         "(zero_stats, deep_host)"] h ev
  show ?thesis by blast
qed

section \<open>Lookup and update in the filesystem\<close>






lemma update_at_compose: "update_at q f (update_at q g r) = update_at q (\<lambda>cs. f (g cs)) r"
proof (induction q arbitrary: r)
  case Nil
  then show ?case by (cases r) simp_all
next
  case (Cons y q)
  then show ?case by (cases r) simp_all
qed







section \<open>\<open>_manual_rmtree\<close> on a host that refuses none of its calls\<close>

lemma removal_unhindered_update [simp]:
  "removal_unhindered (w\<lparr>trace := t\<rparr>) = removal_unhindered w"
  "removal_unhindered (w\<lparr>fs := r\<rparr>) = removal_unhindered w"
  by (simp_all add: removal_unhindered_def)









end
